theory Spec2Isabelle
  imports Main "HOL-Library.Word" "HOL-Library.Sublist"
begin

section \<open>JavaScript values used by database.js\<close>

text \<open>
  A JavaScript string is a sequence of UTF-16 code units. The product labels that
  \<open>verifyCode\<close> inspects contain Arabic text, so code units are kept as 16-bit words;
  \<open>js\<close> writes an ASCII literal.
\<close>

type_synonym jsstring = "16 word list"

definition js :: "string \<Rightarrow> jsstring" where
  "js s = map of_char s"

text \<open>\<open>s.includes(searchString)\<close>: \<open>searchString\<close> occurs in \<open>s\<close> as a contiguous run.\<close>

definition String_includes :: "jsstring \<Rightarrow> jsstring \<Rightarrow> bool" where
  "String_includes s searchString = sublist searchString s"

text \<open>\<open>s.slice(-n)\<close>: the last \<open>n\<close> code units, the whole string when it is shorter.\<close>

definition slice_last :: "nat \<Rightarrow> jsstring \<Rightarrow> jsstring" where
  "slice_last n s = drop (length s - n) s"

text \<open>\<open>s.substring(start, fin)\<close>: both indices are clamped to the length and swapped
  when out of order.\<close>

definition substring :: "nat \<Rightarrow> nat \<Rightarrow> jsstring \<Rightarrow> jsstring" where
  "substring start fin s =
     (let a = min start (length s); b = min fin (length s)
      in take (max a b - min a b) (drop (min a b) s))"

text \<open>\<open>toUpperCase\<close> on the code units that occur in radix-36 output: the letters
  \<open>a\<close> to \<open>z\<close> move to \<open>A\<close> to \<open>Z\<close>, digits and punctuation stay.\<close>

definition upperUnit :: "16 word \<Rightarrow> 16 word" where
  "upperUnit c = (if 0x61 \<le> c \<and> c \<le> 0x7A then c - 0x20 else c)"

definition toUpperCase :: "jsstring \<Rightarrow> jsstring" where
  "toUpperCase s = map upperUnit s"

text \<open>The digit characters of \<open>Number.prototype.toString(36)\<close>: \<open>0\<close> to \<open>9\<close>, then
  \<open>a\<close> to \<open>z\<close>.\<close>

definition digit36 :: "nat \<Rightarrow> 16 word" where
  "digit36 d = (if d < 10 then of_nat (48 + d) else of_nat (87 + d))"

function digits36 :: "nat \<Rightarrow> nat list" where
  "digits36 n = (if n < 36 then [n] else digits36 (n div 36) @ [n mod 36])"
  by pat_completeness auto
termination
  by (relation "measure (\<lambda>n. n)") auto

text \<open>\<open>n.toString(36)\<close> for an integer \<open>n\<close>, as \<open>Date.now()\<close> returns one.\<close>

definition Number_toString36 :: "int \<Rightarrow> jsstring" where
  "Number_toString36 n =
     (if n < 0 then js ''-'' @ map digit36 (digits36 (nat (- n)))
      else map digit36 (digits36 (nat n)))"

text \<open>
  \<open>Math.random()\<close> returns a double in \<open>[0, 1)\<close>. The code only ever looks at its
  radix-36 rendering, so a random draw is represented by the digits that
  \<open>toString(36)\<close> prints after the point: \<open>[]\<close> for the value 0 (printed \<open>0\<close>),
  \<open>[18]\<close> for 0.5 (printed \<open>0.i\<close>), and so on.
\<close>

type_synonym random = "nat list"

definition random_toString36 :: "random \<Rightarrow> jsstring" where
  "random_toString36 ds = (if ds = [] then js ''0'' else js ''0.'' @ map digit36 ds)"

text \<open>
  A time value as \<open>new Date(v).getTime()\<close> returns it: a number of milliseconds since
  the epoch, or \<open>NaN\<close> when \<open>v\<close> is not a date. In a condition, \<open>NaN\<close> and \<open>0\<close> count
  as false, like \<open>null\<close>.
\<close>

datatype jsnum = NaN | Num int

fun truthy_num :: "jsnum option \<Rightarrow> bool" where
  "truthy_num None = False"
| "truthy_num (Some NaN) = False"
| "truthy_num (Some (Num t)) = (t \<noteq> 0)"

fun num_less :: "jsnum option \<Rightarrow> int \<Rightarrow> bool" where
  "num_less (Some (Num t)) n = (t < n)"
| "num_less _ n = False"

section \<open>The code generator\<close>

text \<open>
  \<open>generateCode(type = 'admin')\<close>, lines 557 to 562. The clock reading \<open>Date.now()\<close>
  and the random draw are arguments; \<open>None\<close> is a call without argument.
\<close>

definition generateCode :: "jsstring option \<Rightarrow> int \<Rightarrow> random \<Rightarrow> jsstring" where
  "generateCode type now rnd =
     (let ty = (case type of None \<Rightarrow> js ''admin'' | Some t \<Rightarrow> t);
          prefix' = (if ty = js ''admin'' then js ''ADM'' else js ''VWR'');
          timestamp = toUpperCase (slice_last 4 (Number_toString36 now));
          random = toUpperCase (substring 2 6 (random_toString36 rnd))
      in prefix' @ js ''-'' @ timestamp @ random)"

text \<open>The format \<open>^(ADM|VWR)-[A-Z0-9]{8}$\<close>.\<close>

definition code_char :: "16 word \<Rightarrow> bool" where
  "code_char c = ((0x41 \<le> c \<and> c \<le> 0x5A) \<or> (0x30 \<le> c \<and> c \<le> 0x39))"

definition code_format :: "jsstring \<Rightarrow> bool" where
  "code_format s =
     ((take 4 s = js ''ADM-'' \<or> take 4 s = js ''VWR-'')
      \<and> length (drop 4 s) = 8 \<and> list_all code_char (drop 4 s))"

section \<open>Records and object stores\<close>

text \<open>
  The fields of a user, an access code and a subscription that the code subsystem reads
  or writes. \<open>product\<close> is \<open>None\<close> when the field is \<open>null\<close> or \<open>undefined\<close>.
  \<open>expiryDate\<close> is \<open>None\<close> when the field is missing (\<open>null\<close>, or another value that
  counts as false), and otherwise the time value that \<open>new Date(user.expiryDate).getTime()\<close>
  reads from it. Creation and update stamps are left out: nothing reads them.
\<close>

record user =
  name :: jsstring
  email :: jsstring
  product :: "jsstring option"
  expiryDate :: "jsnum option"

record subscription =
  userId :: nat

record accessCode =
  userId :: nat
  code :: jsstring
  type :: jsstring
  isActive :: bool

text \<open>
  An object store with \<open>keyPath: 'id', autoIncrement: true\<close>. The record with key \<open>k\<close>
  sits at position \<open>k\<close> of the list; \<open>None\<close> marks a key that holds no record (never
  assigned, or deleted). The key generator starts at 1 and never hands a key out twice,
  so the next key is the length of the list, and 1 for an empty store.
\<close>

type_synonym 'r objectStore = "'r option list"

definition tbl_get :: "'r objectStore \<Rightarrow> nat \<Rightarrow> 'r option" where
  "tbl_get xs k = (if k < length xs then xs ! k else None)"

definition tbl_put :: "nat \<Rightarrow> 'r \<Rightarrow> 'r objectStore \<Rightarrow> 'r objectStore" where
  "tbl_put k r xs =
     (if k < length xs then xs[k := Some r]
      else xs @ replicate (k - length xs) None @ [Some r])"

definition tbl_add :: "'r \<Rightarrow> 'r objectStore \<Rightarrow> nat \<times> 'r objectStore" where
  "tbl_add r xs = (let k = max 1 (length xs) in (k, tbl_put k r xs))"

definition tbl_delete :: "nat \<Rightarrow> 'r objectStore \<Rightarrow> 'r objectStore" where
  "tbl_delete k xs = (if k < length xs then xs[k := None] else xs)"

text \<open>The records of a store in key order, each with its \<open>id\<close>.\<close>

fun rows_from :: "nat \<Rightarrow> 'r objectStore \<Rightarrow> (nat \<times> 'r) list" where
  "rows_from k [] = []"
| "rows_from k (None # xs) = rows_from (Suc k) xs"
| "rows_from k (Some r # xs) = (k, r) # rows_from (Suc k) xs"

definition rows :: "'r objectStore \<Rightarrow> (nat \<times> 'r) list" where
  "rows xs = rows_from 0 xs"

text \<open>
  The database: the three stores the code subsystem touches. \<open>failing\<close> stands for a
  connection on which every request is rejected (closed, or the storage is unreadable).
\<close>

record database =
  users :: "user objectStore"
  codes :: "accessCode objectStore"
  subscriptions :: "subscription objectStore"
  failing :: bool

text \<open>
  The \<open>DatabaseManager\<close> object: \<open>db\<close> is \<open>this.db\<close> (\<open>None\<close> for \<open>null\<close>);
  \<open>initPromise\<close> says that \<open>this.initPromise\<close> holds the promise of an open request
  that has not landed yet; \<open>indexedDB\<close> is what \<open>indexedDB.open\<close> delivers, \<open>None\<close>
  when the open request errors.
\<close>

record DatabaseManager =
  db :: "database option"
  initPromise :: bool
  indexedDB :: "database option"

datatype error =
    NotInitialized
  | OpenFailed
  | RequestFailed
  | ConstraintError
  | TypeError
  | CodeNotFound
  | VerificationFailed

text \<open>
  An \<open>async\<close> method: it runs on the manager, leaves it changed, and either resolves
  with a value (\<open>Inr\<close>) or rejects with an error (\<open>Inl\<close>). Writes made before a
  rejection stay.
\<close>

type_synonym 'a promise = "DatabaseManager \<Rightarrow> (error + 'a) \<times> DatabaseManager"

definition resolve :: "'a \<Rightarrow> 'a promise" where
  "resolve x m = (Inr x, m)"

definition reject :: "error \<Rightarrow> 'a promise" where
  "reject e m = (Inl e, m)"

definition await :: "'a promise \<Rightarrow> ('a \<Rightarrow> 'b promise) \<Rightarrow> 'b promise" where
  "await p f m = (case p m of (Inl e, m') \<Rightarrow> (Inl e, m') | (Inr x, m') \<Rightarrow> f x m')"

definition try_catch :: "'a promise \<Rightarrow> (error \<Rightarrow> 'a promise) \<Rightarrow> 'a promise" where
  "try_catch p handler m =
     (case p m of (Inl e, m') \<Rightarrow> handler e m' | (Inr x, m') \<Rightarrow> (Inr x, m'))"

text \<open>\<open>Promise.all\<close> over promises that were all started: every one runs, and the
  first rejection, if any, is the result.\<close>

fun promise_all :: "'a promise list \<Rightarrow> 'a list promise" where
  "promise_all [] m = (Inr [], m)"
| "promise_all (p # ps) m =
     (case p m of (r, m') \<Rightarrow>
        (case promise_all ps m' of (rs, m'') \<Rightarrow>
           (case r of
              Inl e \<Rightarrow> (Inl e, m'')
            | Inr x \<Rightarrow> (case rs of Inl e \<Rightarrow> (Inl e, m'') | Inr xs \<Rightarrow> (Inr (x # xs), m'')))))"

text \<open>\<open>await new Promise(resolve => setTimeout(resolve, ms))\<close>: while this call
  sleeps other callers run; \<open>others\<close> is what they do to the manager.\<close>

definition sleep :: "(DatabaseManager \<Rightarrow> DatabaseManager) \<Rightarrow> unit promise" where
  "sleep others m = (Inr (), others m)"

text \<open>The same for the time a look-up of \<open>verifyCode\<close> is awaited: \<open>others\<close> is what
  happens to the manager and its connection before the next look-up starts.\<close>

definition meanwhile :: "(DatabaseManager \<Rightarrow> DatabaseManager) \<Rightarrow> unit promise" where
  "meanwhile others m = (Inr (), others m)"

section \<open>Generic store operations, lines 106 to 249\<close>

text \<open>
  A request against \<open>this.db\<close>: \<open>e\<close> is the error when \<open>this.db\<close> is \<open>null\<close>
  (\<open>add\<close> and \<open>getAll\<close> test for it and reject with \<open>Database not initialized\<close>;
  \<open>get\<close>, \<open>update\<close> and \<open>delete\<close> dereference it and reject with a \<open>TypeError\<close>).
\<close>

definition request :: "error \<Rightarrow> (database \<Rightarrow> (error + 'a) \<times> database) \<Rightarrow> 'a promise" where
  "request e f m =
     (case db m of
        None \<Rightarrow> (Inl e, m)
      | Some d \<Rightarrow>
          if failing d then (Inl RequestFailed, m)
          else (case f d of (r, d') \<Rightarrow> (r, m\<lparr>db := Some d'\<rparr>)))"

text \<open>\<open>this.add('codes', data)\<close>. The \<open>code\<close> index is unique: a second record with
  the same code string is refused.\<close>

definition add_codes :: "accessCode \<Rightarrow> nat promise" where
  "add_codes data =
     request NotInitialized (\<lambda>d.
       if list_ex (\<lambda>(k, r). code r = code data) (rows (codes d)) then (Inl ConstraintError, d)
       else (case tbl_add data (codes d) of (k, xs) \<Rightarrow> (Inr k, d\<lparr>codes := xs\<rparr>)))"

text \<open>\<open>this.get(storeName, key)\<close>; the store is named by its selector.\<close>

definition get :: "(database \<Rightarrow> 'r objectStore) \<Rightarrow> nat \<Rightarrow> 'r option promise" where
  "get store key = request TypeError (\<lambda>d. (Inr (tbl_get (store d) key), d))"

text \<open>\<open>this.getAll(storeName, indexName, query)\<close>: \<open>Some p\<close> selects the records whose
  index key equals the query, \<open>None\<close> is the call without index. Both come in key order.\<close>

definition getAll ::
  "(database \<Rightarrow> 'r objectStore) \<Rightarrow> ('r \<Rightarrow> bool) option \<Rightarrow> (nat \<times> 'r) list promise" where
  "getAll store query =
     request NotInitialized (\<lambda>d.
       (Inr (case query of
               None \<Rightarrow> rows (store d)
             | Some p \<Rightarrow> filter (\<lambda>(k, r). p r) (rows (store d))), d))"

text \<open>\<open>this.update('codes', data)\<close> with \<open>data.id = key\<close>: a \<open>put\<close>.\<close>

definition update_codes :: "nat \<Rightarrow> accessCode \<Rightarrow> nat promise" where
  "update_codes key data =
     request TypeError (\<lambda>d.
       if list_ex (\<lambda>(k, r). k \<noteq> key \<and> code r = code data) (rows (codes d))
       then (Inl ConstraintError, d)
       else (Inr key, d\<lparr>codes := tbl_put key data (codes d)\<rparr>))"

text \<open>\<open>this.delete(storeName, key)\<close>; the store is named by its record update.\<close>

definition delete ::
  "(('r objectStore \<Rightarrow> 'r objectStore) \<Rightarrow> database \<Rightarrow> database) \<Rightarrow> nat \<Rightarrow> bool promise" where
  "delete store key = request TypeError (\<lambda>d. (Inr True, store (tbl_delete key) d))"

text \<open>
  \<open>init\<close>, lines 16 to 103. With \<open>this.db\<close> set it returns at once. With a promise
  pending in \<open>this.initPromise\<close> it returns that promise: the caller waits until the
  open request lands, which sets \<open>this.db\<close> or rejects, and clears the promise either
  way. Otherwise it starts the open request and stores its promise in
  \<open>this.initPromise\<close>, but does not return it: the call resolves at once, with
  \<open>this.db\<close> still \<open>null\<close>.
\<close>

definition init :: "unit promise" where
  "init m =
     (if db m \<noteq> None then (Inr (), m)
      else if initPromise m
      then (case indexedDB m of
              None \<Rightarrow> (Inl OpenFailed, m\<lparr>initPromise := False\<rparr>)
            | Some d \<Rightarrow> (Inr (), m\<lparr>db := Some d, initPromise := False\<rparr>))
      else (Inr (), m\<lparr>initPromise := True\<rparr>))"

text \<open>\<open>if (!this.db) { await this.init(); }\<close>\<close>

definition init_if_needed :: "unit promise" where
  "init_if_needed m = (if db m = None then init m else (Inr (), m))"

section \<open>Code operations, lines 325 to 453\<close>

text \<open>\<open>addCode(codeData)\<close>: \<open>isActive\<close> is \<open>codeData.isActive !== false\<close>, so a missing
  flag (\<open>None\<close>) stores an active code.\<close>

definition addCode :: "nat \<Rightarrow> jsstring \<Rightarrow> jsstring \<Rightarrow> bool option \<Rightarrow> nat promise" where
  "addCode uid codeString ty active =
     add_codes \<lparr>userId = uid, code = codeString, type = ty, isActive = (active \<noteq> Some False)\<rparr>"

definition getCode :: "jsstring \<Rightarrow> (nat \<times> accessCode) option promise" where
  "getCode codeString =
     await (getAll codes (Some (\<lambda>c. code c = codeString)))
       (\<lambda>found. resolve (case found of [] \<Rightarrow> None | c # _ \<Rightarrow> Some c))"

definition getUser :: "nat \<Rightarrow> user option promise" where
  "getUser uid = get users uid"

text \<open>\<open>getUserCodes(userId, type = null)\<close>: only active codes, in both branches. An
  empty \<open>type\<close> string counts as false, like \<open>null\<close>.\<close>

definition truthy_string :: "jsstring option \<Rightarrow> bool" where
  "truthy_string s = (case s of None \<Rightarrow> False | Some t \<Rightarrow> t \<noteq> [])"

definition getUserCodes :: "nat \<Rightarrow> jsstring option \<Rightarrow> (nat \<times> accessCode) list promise" where
  "getUserCodes uid ty =
     await init_if_needed (\<lambda>_.
       try_catch
         (await (getAll codes (Some (\<lambda>c. userId c = uid)))
            (\<lambda>found. resolve
               (if truthy_string ty
                then filter (\<lambda>(k, c). Some (type c) = ty \<and> isActive c) found
                else filter (\<lambda>(k, c). isActive c) found)))
         (\<lambda>error.
            try_catch
              (await (getAll codes None)
                 (\<lambda>allCodes.
                    let userCodes = filter (\<lambda>(k, c). userId c = uid \<and> isActive c) allCodes
                    in resolve
                         (if truthy_string ty
                          then filter (\<lambda>(k, c). Some (type c) = ty) userCodes
                          else userCodes)))
              (\<lambda>e. resolve [])))"

text \<open>\<open>updateCode(codeId, codeData)\<close>: the fields that \<open>codeData\<close> carries replace the
  stored ones.\<close>

record codeData =
  new_userId :: "nat option"
  new_code :: "jsstring option"
  new_type :: "jsstring option"
  new_isActive :: "bool option"

definition spread :: "accessCode \<Rightarrow> codeData \<Rightarrow> accessCode" where
  "spread c cd =
     \<lparr>userId = (case new_userId cd of None \<Rightarrow> userId c | Some v \<Rightarrow> v),
      code = (case new_code cd of None \<Rightarrow> code c | Some v \<Rightarrow> v),
      type = (case new_type cd of None \<Rightarrow> type c | Some v \<Rightarrow> v),
      isActive = (case new_isActive cd of None \<Rightarrow> isActive c | Some v \<Rightarrow> v)\<rparr>"

definition updateCode :: "nat \<Rightarrow> codeData \<Rightarrow> nat promise" where
  "updateCode codeId cd =
     await (get codes codeId)
       (\<lambda>found. case found of
            None \<Rightarrow> reject CodeNotFound
          | Some c \<Rightarrow> update_codes codeId (spread c cd))"

definition deleteCode :: "nat \<Rightarrow> bool promise" where
  "deleteCode codeId = delete codes_update codeId"

definition deleteUserCodes :: "nat \<Rightarrow> bool list promise" where
  "deleteUserCodes uid =
     await (getUserCodes uid None)
       (\<lambda>found. promise_all (map (\<lambda>(k, c). deleteCode k) found))"

definition deleteUserSubscriptions :: "nat \<Rightarrow> bool list promise" where
  "deleteUserSubscriptions uid =
     await (getAll subscriptions (Some (\<lambda>s. subscription.userId s = uid)))
       (\<lambda>found. promise_all (map (\<lambda>(k, s). delete subscriptions_update k) found))"

text \<open>\<open>deleteUser(userId)\<close>, lines 317 to 322.\<close>

definition deleteUser :: "nat \<Rightarrow> bool promise" where
  "deleteUser uid =
     await (deleteUserCodes uid) (\<lambda>_.
     await (deleteUserSubscriptions uid) (\<lambda>_.
     delete users_update uid))"

section \<open>Regeneration, lines 455 to 555\<close>

text \<open>The loop of lines 464 to 468 over the codes read before.\<close>

definition deactivation :: codeData where
  "deactivation = \<lparr>new_userId = None, new_code = None, new_type = None, new_isActive = Some False\<rparr>"

fun deactivateAll :: "(nat \<times> accessCode) list \<Rightarrow> unit promise" where
  "deactivateAll [] m = (Inr (), m)"
| "deactivateAll ((k, c) # rest) m =
     (if isActive c
      then (case updateCode k deactivation m of
              (Inl e, m') \<Rightarrow> (Inl e, m')
            | (Inr _, m') \<Rightarrow> deactivateAll rest m')
      else deactivateAll rest m)"

text \<open>
  The \<open>do ... while (attempts < maxAttempts)\<close> loops of lines 476 to 481 and 485 to
  490. \<open>entropy i\<close> is the clock reading and the random draw that the call of
  \<open>generateCode\<close> in round \<open>i\<close> sees.
\<close>

definition maxAttempts :: nat where
  "maxAttempts = 10"

function uniqueCode :: "jsstring \<Rightarrow> (nat \<Rightarrow> int \<times> random) \<Rightarrow> nat \<Rightarrow> jsstring promise" where
  "uniqueCode ty entropy attempts m =
     (let candidate = generateCode (Some ty) (fst (entropy attempts)) (snd (entropy attempts))
      in case getCode candidate m of
           (Inl e, m') \<Rightarrow> (Inl e, m')
         | (Inr None, m') \<Rightarrow> (Inr candidate, m')
         | (Inr (Some existing), m') \<Rightarrow>
             if attempts + 1 < maxAttempts then uniqueCode ty entropy (attempts + 1) m'
             else (Inr candidate, m'))"
  by pat_completeness auto
termination
  by (relation "measure (\<lambda>(ty, entropy, attempts, m). maxAttempts - attempts)") auto

text \<open>
  The read-back of lines 510 to 539, after the first sleep: each code by its string,
  then by its id where the string missed; if one is still missing, a second sleep and
  both codes by their strings once more.
\<close>

definition readBack ::
  "(DatabaseManager \<Rightarrow> DatabaseManager) \<Rightarrow> jsstring \<Rightarrow> jsstring \<Rightarrow> nat \<Rightarrow> nat \<Rightarrow> unit promise" where
  "readBack others adminCode viewerCode adminCodeId viewerCodeId =
     await (getCode adminCode) (\<lambda>byCodeAdmin.
     await (getCode viewerCode) (\<lambda>byCodeViewer.
     await (if byCodeAdmin = None then get codes adminCodeId
            else resolve (map_option snd byCodeAdmin)) (\<lambda>verifyAdmin.
     await (if byCodeViewer = None then get codes viewerCodeId
            else resolve (map_option snd byCodeViewer)) (\<lambda>verifyViewer.
     if verifyAdmin = None \<or> verifyViewer = None
     then await (sleep others) (\<lambda>_.
          await (getCode adminCode) (\<lambda>verifyAdmin.
          await (getCode viewerCode) (\<lambda>verifyViewer.
          if verifyAdmin = None \<or> verifyViewer = None then reject VerificationFailed
          else resolve ())))
     else resolve ()))))"

text \<open>
  \<open>generateCodesForUser(userId)\<close>. \<open>others1\<close> and \<open>others2\<close> are what other callers do
  during the sleeps of 200 and 300 milliseconds; the handler of the enclosing \<open>try\<close>
  rethrows, so it changes nothing.
\<close>

definition generateCodesForUser ::
  "(DatabaseManager \<Rightarrow> DatabaseManager) \<Rightarrow> (DatabaseManager \<Rightarrow> DatabaseManager) \<Rightarrow>
   (nat \<Rightarrow> int \<times> random) \<Rightarrow> (nat \<Rightarrow> int \<times> random) \<Rightarrow> nat \<Rightarrow> (jsstring \<times> jsstring) promise" where
  "generateCodesForUser others1 others2 entropyAdmin entropyViewer uid =
     await init_if_needed (\<lambda>_.
     try_catch
       (await (getUserCodes uid None) (\<lambda>existingCodes.
        await (deactivateAll existingCodes) (\<lambda>_.
        await (uniqueCode (js ''admin'') entropyAdmin 0) (\<lambda>adminCode.
        await (uniqueCode (js ''viewer'') entropyViewer 0) (\<lambda>viewerCode.
        await (addCode uid adminCode (js ''admin'') (Some True)) (\<lambda>adminCodeId.
        await (addCode uid viewerCode (js ''viewer'') (Some True)) (\<lambda>viewerCodeId.
        await (sleep others1) (\<lambda>_.
        await (readBack others2 adminCode viewerCode adminCodeId viewerCodeId) (\<lambda>_.
        resolve (adminCode, viewerCode))))))))))
       (\<lambda>error. reject error))"

section \<open>Verification, lines 343 to 408\<close>

text \<open>
  \<open>verifyCode(codeString)\<close> awaits three look-ups. \<open>others1\<close> is what happens to the
  manager between the first and the second, \<open>others2\<close> between the second and the
  third; for a caller alone with a steady connection both are the identity.
\<close>

text \<open>The result object: \<open>{ok: false, message}\<close> or the success object with its
  fields \<open>role\<close>, \<open>until\<close>, \<open>tier\<close>, \<open>codes.admin\<close>, \<open>codes.viewer\<close> and the four
  fields of \<open>payload\<close>.\<close>

datatype verification =
    Failure (message: jsstring)
  | Success (role: jsstring) (until: int) (tier: jsstring)
      (codes_admin: jsstring) (codes_viewer: jsstring)
      (payload_userId: nat) (payload_name: jsstring) (payload_email: jsstring)
      (payload_product: "jsstring option")

text \<open>
  Lines 381 to 386. \<open>c.includes\<close> on a missing product raises a \<open>TypeError\<close>; the
  operands are evaluated left to right, \<open>&&\<close> before \<open>||\<close>.
\<close>

definition arabic_yearly :: jsstring where
  "arabic_yearly = [0x633, 0x646, 0x648, 0x64A]"

definition deriveTier :: "jsstring option \<Rightarrow> error + jsstring" where
  "deriveTier product' =
     (if truthy_string product' \<and> String_includes (the product') (js ''6'')
      then Inr (js ''Pro-6'')
      else if truthy_string product' \<and> String_includes (the product') arabic_yearly
      then Inr (js ''Pro-12'')
      else (case product' of
              None \<Rightarrow> Inl TypeError
            | Some p \<Rightarrow>
                if String_includes p (js ''Yearly'') then Inr (js ''Pro-12'')
                else Inr (js ''Basic-3'')))"

definition find_code :: "jsstring \<Rightarrow> (nat \<times> accessCode) list \<Rightarrow> jsstring" where
  "find_code ty userCodes =
     (case List.find (\<lambda>(k, c). type c = ty \<and> isActive c) userCodes of
        None \<Rightarrow> []
      | Some (k, c) \<Rightarrow> code c)"

definition verifyCode ::
  "(DatabaseManager \<Rightarrow> DatabaseManager) \<Rightarrow> (DatabaseManager \<Rightarrow> DatabaseManager) \<Rightarrow>
   jsstring \<Rightarrow> int \<Rightarrow> verification promise" where
  "verifyCode others1 others2 codeString now =
     await init_if_needed (\<lambda>_.
     try_catch
       (await (getCode codeString) (\<lambda>found.
          case found of
            None \<Rightarrow> resolve (Failure (js ''INVALID''))
          | Some (codeId, c) \<Rightarrow>
              if \<not> isActive c then resolve (Failure (js ''INVALID''))
              else
                await (meanwhile others1) (\<lambda>_.
                await (getUser (userId c)) (\<lambda>owner.
                  case owner of
                    None \<Rightarrow> resolve (Failure (js ''USER_NOT_FOUND''))
                  | Some u \<Rightarrow>
                      if truthy_num (expiryDate u) \<and> num_less (expiryDate u) now
                      then resolve (Failure (js ''EXPIRED''))
                      else
                        await (meanwhile others2) (\<lambda>_.
                        await (getUserCodes (userId c) None) (\<lambda>userCodes.
                          let role' = (if type c = js ''admin'' then js ''admin'' else js ''viewer'');
                              until' = (case expiryDate u of
                                          Some (Num t) \<Rightarrow>
                                            if t \<noteq> 0 then t else now + 180 * 24 * 60 * 60 * 1000
                                        | _ \<Rightarrow> now + 180 * 24 * 60 * 60 * 1000)
                          in case deriveTier (product u) of
                               Inl e \<Rightarrow> reject e
                             | Inr tier' \<Rightarrow>
                                 resolve (Success role' until' tier'
                                   (find_code (js ''admin'') userCodes)
                                   (find_code (js ''viewer'') userCodes)
                                   (userId c) (name u) (email u) (product u))))))))
       (\<lambda>error. resolve (Failure (js ''ERROR''))))"

section \<open>Notions used in the statements\<close>

text \<open>The database a method works on once \<open>init_if_needed\<close> has run: the one behind
  \<open>this.db\<close>, or the one that \<open>indexedDB.open\<close> delivers.\<close>

definition database_of :: "DatabaseManager \<Rightarrow> database option" where
  "database_of m = (case db m of Some d \<Rightarrow> Some d | None \<Rightarrow> indexedDB m)"

text \<open>What \<open>getCode\<close> finds in a database: the first record with the code string.\<close>

definition lookup_code :: "jsstring \<Rightarrow> database \<Rightarrow> (nat \<times> accessCode) option" where
  "lookup_code codeString d =
     (case filter (\<lambda>(k, c). code c = codeString) (rows (codes d)) of
        [] \<Rightarrow> None | c # _ \<Rightarrow> Some c)"

text \<open>The active codes of a user for one role, as a query over the \<open>codes\<close> store.\<close>

definition active_codes :: "nat \<Rightarrow> jsstring \<Rightarrow> database \<Rightarrow> (nat \<times> accessCode) list" where
  "active_codes uid ty d =
     filter (\<lambda>(k, c). userId c = uid \<and> type c = ty \<and> isActive c) (rows (codes d))"

text \<open>The \<open>codes\<close> store with every code of a user switched off.\<close>

definition retire :: "nat \<Rightarrow> accessCode objectStore \<Rightarrow> accessCode objectStore" where
  "retire uid xs = map (map_option (\<lambda>c. if userId c = uid then c\<lparr>isActive := False\<rparr> else c)) xs"

text \<open>What \<open>verifyCode\<close> resolves with on a database whose requests succeed; lemma
  \<open>verifyCode_open\<close> shows that the method computes it.\<close>

definition verdict :: "jsstring \<Rightarrow> int \<Rightarrow> database \<Rightarrow> verification" where
  "verdict codeString now d =
     (case lookup_code codeString d of
        None \<Rightarrow> Failure (js ''INVALID'')
      | Some (codeId, c) \<Rightarrow>
          if \<not> isActive c then Failure (js ''INVALID'')
          else (case tbl_get (users d) (userId c) of
                  None \<Rightarrow> Failure (js ''USER_NOT_FOUND'')
                | Some u \<Rightarrow>
                    if truthy_num (expiryDate u) \<and> num_less (expiryDate u) now
                    then Failure (js ''EXPIRED'')
                    else (case deriveTier (product u) of
                            Inl e \<Rightarrow> Failure (js ''ERROR'')
                          | Inr t \<Rightarrow>
                              Success (if type c = js ''admin'' then js ''admin'' else js ''viewer'')
                                (case expiryDate u of
                                   Some (Num t) \<Rightarrow> if t \<noteq> 0 then t else now + 180 * 24 * 60 * 60 * 1000
                                 | _ \<Rightarrow> now + 180 * 24 * 60 * 60 * 1000)
                                t
                                (find_code (js ''admin'')
                                   (filter (\<lambda>(k, c'). isActive c')
                                      (filter (\<lambda>(k, c'). userId c' = userId c) (rows (codes d)))))
                                (find_code (js ''viewer'')
                                   (filter (\<lambda>(k, c'). isActive c')
                                      (filter (\<lambda>(k, c'). userId c' = userId c) (rows (codes d)))))
                                (userId c) (name u) (email u) (product u))))"

text \<open>The tier as the specification words it: the first match wins, over \<open>6\<close>, then
  \<open>Yearly\<close> or its Arabic equivalent, then the default.\<close>

definition spec_tier :: "jsstring \<Rightarrow> jsstring" where
  "spec_tier p =
     (if String_includes p (js ''6'') then js ''Pro-6''
      else if String_includes p (js ''Yearly'') \<or> String_includes p arabic_yearly then js ''Pro-12''
      else js ''Basic-3'')"

text \<open>The candidate that round \<open>n\<close> of a uniqueness loop generates.\<close>

definition candidate :: "jsstring \<Rightarrow> (nat \<Rightarrow> int \<times> random) \<Rightarrow> nat \<Rightarrow> jsstring" where
  "candidate ty entropy n = generateCode (Some ty) (fst (entropy n)) (snd (entropy n))"

text \<open>The unique index on \<open>code\<close>: no two stored codes carry the same string. Every
  database that \<open>add\<close> and \<open>update\<close> have built satisfies it.\<close>

definition unique_codes :: "database \<Rightarrow> bool" where
  "unique_codes d = distinct (map (\<lambda>(k, c). code c) (rows (codes d)))"

text \<open>The round at which a uniqueness loop stops on database \<open>d\<close>: the first of the
  rounds \<open>0\<close> to \<open>maxAttempts - 1\<close> whose candidate no stored code carries, the last
  round when there is none.\<close>

definition attempt :: "jsstring \<Rightarrow> (nat \<Rightarrow> int \<times> random) \<Rightarrow> database \<Rightarrow> nat" where
  "attempt ty entropy d =
     (case List.find (\<lambda>n. lookup_code (candidate ty entropy n) d = None) [0..<maxAttempts] of
        None \<Rightarrow> maxAttempts - 1
      | Some n \<Rightarrow> n)"

text \<open>What happens to the manager while a call waits: another caller deletes the code
  with id 3, stores it under another string, or adds the admin code again; or the
  connection is lost, after which every request on it is rejected.\<close>

definition removes :: "DatabaseManager \<Rightarrow> DatabaseManager" where
  "removes m = snd (deleteCode 3 m)"

definition relabel :: codeData where
  "relabel = \<lparr>new_userId = None, new_code = Some (js ''ADM-RELABELLED''), new_type = None,
              new_isActive = None\<rparr>"

definition relabels :: "DatabaseManager \<Rightarrow> DatabaseManager" where
  "relabels m = snd (updateCode 3 relabel m)"

definition restores :: "DatabaseManager \<Rightarrow> DatabaseManager" where
  "restores m = snd (addCode 1 (js ''ADM-3V28I723'') (js ''admin'') (Some True) m)"

definition connection_lost :: "DatabaseManager \<Rightarrow> DatabaseManager" where
  "connection_lost m = m\<lparr>db := map_option (\<lambda>d. d\<lparr>failing := True\<rparr>) (db m)\<rparr>"

section \<open>Example data\<close>

definition ann :: user where
  "ann = \<lparr>name = js ''Ann'', email = js ''ann@example.org'',
          product = Some (js ''Plan-6-Premium''), expiryDate = None\<rparr>"

definition shop :: database where
  "shop = \<lparr>users = [None, Some ann],
           codes = [None,
             Some \<lparr>userId = 1, code = js ''ADM-AAAA1111'', type = js ''admin'', isActive = True\<rparr>,
             Some \<lparr>userId = 1, code = js ''VWR-AAAA1111'', type = js ''viewer'', isActive = False\<rparr>],
           subscriptions = [None, Some \<lparr>subscription.userId = 1\<rparr>],
           failing = False\<rparr>"

text \<open>A clock that stands at 1700000000000 and a random source that keeps drawing the
  number printed as \<open>0.i723\<close>.\<close>

definition steady :: "nat \<Rightarrow> int \<times> random" where
  "steady i = (1700000000000, [18, 7, 2, 3])"

text \<open>The same shop with the user's subscription ending at the epoch,
  \<open>1970-01-01T00:00:00.000Z\<close>, and with a user whose product label is missing.\<close>

definition lapsed :: database where
  "lapsed = shop\<lparr>users := [None, Some (ann\<lparr>expiryDate := Some (Num 0)\<rparr>)]\<rparr>"

definition unlabelled :: database where
  "unlabelled = shop\<lparr>users := [None, Some (ann\<lparr>product := None\<rparr>)]\<rparr>"

text \<open>The shop after one regeneration for user 1 with the clock and draw of
  \<open>steady\<close>, the same with all four codes switched off, and the shop with its two first
  codes switched off.\<close>

definition restocked :: database where
  "restocked = shop\<lparr>codes := [None,
       Some \<lparr>userId = 1, code = js ''ADM-AAAA1111'', type = js ''admin'', isActive = False\<rparr>,
       Some \<lparr>userId = 1, code = js ''VWR-AAAA1111'', type = js ''viewer'', isActive = False\<rparr>,
       Some \<lparr>userId = 1, code = js ''ADM-3V28I723'', type = js ''admin'', isActive = True\<rparr>,
       Some \<lparr>userId = 1, code = js ''VWR-3V28I723'', type = js ''viewer'', isActive = True\<rparr>]\<rparr>"

definition worn :: database where
  "worn = shop\<lparr>codes := [None,
       Some \<lparr>userId = 1, code = js ''ADM-AAAA1111'', type = js ''admin'', isActive = False\<rparr>,
       Some \<lparr>userId = 1, code = js ''VWR-AAAA1111'', type = js ''viewer'', isActive = False\<rparr>,
       Some \<lparr>userId = 1, code = js ''ADM-3V28I723'', type = js ''admin'', isActive = False\<rparr>,
       Some \<lparr>userId = 1, code = js ''VWR-3V28I723'', type = js ''viewer'', isActive = False\<rparr>]\<rparr>"

definition idle :: database where
  "idle = shop\<lparr>codes := [None,
       Some \<lparr>userId = 1, code = js ''ADM-AAAA1111'', type = js ''admin'', isActive = False\<rparr>,
       Some \<lparr>userId = 1, code = js ''VWR-AAAA1111'', type = js ''viewer'', isActive = False\<rparr>]\<rparr>"

text \<open>A random source that draws \<open>0.i723\<close> twice and \<open>0.i724\<close> from then on.\<close>

definition stuttering :: "nat \<Rightarrow> int \<times> random" where
  "stuttering n = (1700000000000, if n < 2 then [18, 7, 2, 3] else [18, 7, 2, 4])"

section \<open>Basic facts\<close>

declare uniqueCode.simps [simp del]
declare digits36.simps [simp del]

subsection \<open>Sequencing\<close>

lemma await_resolved: "p m = (Inr x, m1) \<Longrightarrow> await p f m = f x m1"
  by (simp add: await_def)

lemma await_rejected: "p m = (Inl e, m1) \<Longrightarrow> await p f m = (Inl e, m1)"
  by (simp add: await_def)

lemma await_InrE:
  assumes "await p f m = (Inr y, m')"
  obtains x m1 where "p m = (Inr x, m1)" and "f x m1 = (Inr y, m')"
  using assms by (auto simp: await_def split: prod.splits sum.splits)

lemma try_catch_rethrow: "try_catch p (\<lambda>e. reject e) = p"
  by (auto simp: try_catch_def reject_def fun_eq_iff split: prod.splits sum.splits)

lemma try_catch_resolved: "p m = (Inr x, m1) \<Longrightarrow> try_catch p h m = (Inr x, m1)"
  by (simp add: try_catch_def)

lemma try_catch_rejected: "p m = (Inl e, m1) \<Longrightarrow> try_catch p h m = h e m1"
  by (simp add: try_catch_def)

subsection \<open>Rows of a store\<close>

lemma rows_from_append:
  "rows_from n (xs @ ys) = rows_from n xs @ rows_from (n + length xs) ys"
proof (induction xs arbitrary: n)
  case Nil
  then show ?case by simp
next
  case (Cons x xs)
  then show ?case by (cases x) simp_all
qed

lemma rows_from_replicate_None: "rows_from n (replicate j None) = []"
  by (induction j arbitrary: n) simp_all

lemma in_rows_from:
  "(k, r) \<in> set (rows_from n xs) \<longleftrightarrow> (\<exists>j < length xs. k = n + j \<and> xs ! j = Some r)"
proof (induction xs arbitrary: n)
  case Nil
  then show ?case by simp
next
  case (Cons x xs)
  have split: "(\<exists>j < length (x # xs). k = n + j \<and> (x # xs) ! j = Some r)
      = ((k = n \<and> x = Some r) \<or> (\<exists>j < length xs. k = Suc n + j \<and> xs ! j = Some r))"
    by (auto simp: less_Suc_eq_0_disj)
  show ?case
    unfolding split using Cons [of "Suc n"] by (cases x) auto
qed

lemma in_rows: "(k, r) \<in> set (rows xs) \<longleftrightarrow> k < length xs \<and> xs ! k = Some r"
  by (simp add: rows_def in_rows_from)

lemma rows_tbl_add:
  "tbl_add r xs = (k, ys) \<Longrightarrow> rows ys = rows xs @ [(k, r)]"
  by (auto simp: tbl_add_def tbl_put_def rows_def rows_from_append rows_from_replicate_None
      Let_def max_def split: if_splits)

subsection \<open>Requests on an open database\<close>

lemma request_open:
  "\<not> failing d \<Longrightarrow>
   request e f \<lparr>db = Some d, initPromise = q, indexedDB = i\<rparr> =
     (fst (f d), \<lparr>db = Some (snd (f d)), initPromise = q, indexedDB = i\<rparr>)"
  by (simp add: request_def split: prod.splits)

lemma request_failing:
  "failing d \<Longrightarrow>
   request e f \<lparr>db = Some d, initPromise = q, indexedDB = i\<rparr> = (Inl RequestFailed, \<lparr>db = Some d, initPromise = q, indexedDB = i\<rparr>)"
  by (simp add: request_def)

lemma getAll_open:
  "\<not> failing d \<Longrightarrow>
   getAll store query \<lparr>db = Some d, initPromise = q, indexedDB = i\<rparr> =
     (Inr (case query of None \<Rightarrow> rows (store d)
                       | Some p \<Rightarrow> filter (\<lambda>(k, r). p r) (rows (store d))),
      \<lparr>db = Some d, initPromise = q, indexedDB = i\<rparr>)"
  by (simp add: getAll_def request_open)

lemma get_open:
  "\<not> failing d \<Longrightarrow>
   get store key \<lparr>db = Some d, initPromise = q, indexedDB = i\<rparr> =
     (Inr (tbl_get (store d) key), \<lparr>db = Some d, initPromise = q, indexedDB = i\<rparr>)"
  by (simp add: get_def request_open)

lemma getCode_open:
  "\<not> failing d \<Longrightarrow>
   getCode codeString \<lparr>db = Some d, initPromise = q, indexedDB = i\<rparr> =
     (Inr (lookup_code codeString d), \<lparr>db = Some d, initPromise = q, indexedDB = i\<rparr>)"
  by (simp add: getCode_def await_def getAll_open resolve_def lookup_code_def)

lemma init_if_needed_open:
  "init_if_needed \<lparr>db = Some d, initPromise = q, indexedDB = i\<rparr> = (Inr (), \<lparr>db = Some d, initPromise = q, indexedDB = i\<rparr>)"
  by (simp add: init_if_needed_def)

lemma getUserCodes_open:
  "\<not> failing d \<Longrightarrow>
   getUserCodes uid None \<lparr>db = Some d, initPromise = q, indexedDB = i\<rparr> =
     (Inr (filter (\<lambda>(k, c). isActive c) (filter (\<lambda>(k, c). userId c = uid) (rows (codes d)))),
      \<lparr>db = Some d, initPromise = q, indexedDB = i\<rparr>)"
  by (simp add: getUserCodes_def await_def init_if_needed_open try_catch_def getAll_open
      resolve_def truthy_string_def)

lemma uniqueCode_open:
  "\<not> failing d \<Longrightarrow>
   \<exists>c. uniqueCode ty entropy attempts \<lparr>db = Some d, initPromise = q, indexedDB = i\<rparr> =
        (Inr c, \<lparr>db = Some d, initPromise = q, indexedDB = i\<rparr>)"
proof (induction ty entropy attempts "\<lparr>db = Some d, initPromise = q, indexedDB = i\<rparr>" rule: uniqueCode.induct)
  case (1 ty entropy attempts)
  show ?case
    using 1 by (subst uniqueCode.simps) (auto simp: getCode_open Let_def split: option.splits)
qed


lemma updateCode_open:
  "\<not> failing d \<Longrightarrow>
   updateCode k cd \<lparr>db = Some d, initPromise = q, indexedDB = i\<rparr> =
     (case tbl_get (codes d) k of
        None \<Rightarrow> (Inl CodeNotFound, \<lparr>db = Some d, initPromise = q, indexedDB = i\<rparr>)
      | Some c \<Rightarrow>
          if list_ex (\<lambda>(k', r). k' \<noteq> k \<and> code r = code (spread c cd)) (rows (codes d))
          then (Inl ConstraintError, \<lparr>db = Some d, initPromise = q, indexedDB = i\<rparr>)
          else (Inr k, \<lparr>db = Some (d\<lparr>codes := tbl_put k (spread c cd) (codes d)\<rparr>), initPromise = q, indexedDB = i\<rparr>))"
  by (simp add: updateCode_def await_def get_open reject_def update_codes_def request_open
      split: option.splits)

lemma spread_deactivation: "spread c deactivation = c\<lparr>isActive := False\<rparr>"
  by (simp add: spread_def deactivation_def)

lemma deactivateAll_open:
  assumes "\<not> failing d"
    and "deactivateAll ecs \<lparr>db = Some d, initPromise = q, indexedDB = i\<rparr> = (Inr (), m')"
  shows "\<exists>ys. m' = \<lparr>db = Some (d\<lparr>codes := ys\<rparr>), initPromise = q, indexedDB = i\<rparr>
           \<and> length ys = length (codes d)
           \<and> (\<forall>k < length ys. ys ! k =
                 (if \<exists>c0. (k, c0) \<in> set ecs \<and> isActive c0
                  then map_option (\<lambda>c. c\<lparr>isActive := False\<rparr>) (codes d ! k)
                  else codes d ! k))"
  using assms
proof (induction ecs arbitrary: d)
  case Nil
  then show ?case by (intro exI [of _ "codes d"]) simp
next
  case (Cons e ecs)
  obtain k0 c0 where e: "e = (k0, c0)" by (cases e)
  show ?case
  proof (cases "isActive c0")
    case False
    with Cons.prems e have "deactivateAll ecs \<lparr>db = Some d, initPromise = q, indexedDB = i\<rparr> = (Inr (), m')"
      by simp
    from Cons.IH [OF Cons.prems(1) this] obtain ys where
      ys: "m' = \<lparr>db = Some (d\<lparr>codes := ys\<rparr>), initPromise = q, indexedDB = i\<rparr>" "length ys = length (codes d)"
        "\<forall>k < length ys. ys ! k =
                 (if \<exists>c0. (k, c0) \<in> set ecs \<and> isActive c0
                  then map_option (\<lambda>c. c\<lparr>isActive := False\<rparr>) (codes d ! k)
                  else codes d ! k)"
      by blast
    show ?thesis
      using ys False e by (intro exI [of _ ys]) auto
  next
    case True
    from Cons.prems True e obtain c where
      c: "tbl_get (codes d) k0 = Some c"
      and rest: "deactivateAll ecs
          \<lparr>db = Some (d\<lparr>codes := tbl_put k0 (c\<lparr>isActive := False\<rparr>) (codes d)\<rparr>), initPromise = q, indexedDB = i\<rparr>
          = (Inr (), m')"
      by (auto simp: updateCode_open spread_deactivation split: option.splits if_splits)
    from c have k0: "k0 < length (codes d)" "codes d ! k0 = Some c"
      by (auto simp: tbl_get_def split: if_splits)
    let ?xs = "(codes d)[k0 := Some (c\<lparr>isActive := False\<rparr>)]"
    let ?d1 = "d\<lparr>codes := ?xs\<rparr>"
    have put: "tbl_put k0 (c\<lparr>isActive := False\<rparr>) (codes d) = ?xs"
      using k0 by (simp add: tbl_put_def)
    have nf1: "\<not> failing ?d1" using Cons.prems(1) by simp
    from rest have "deactivateAll ecs \<lparr>db = Some ?d1, initPromise = q, indexedDB = i\<rparr> = (Inr (), m')"
      by (simp add: put)
    from Cons.IH [OF nf1 this] obtain ys where
      ys: "m' = \<lparr>db = Some (?d1\<lparr>codes := ys\<rparr>), initPromise = q, indexedDB = i\<rparr>" "length ys = length (codes ?d1)"
        "\<forall>k < length ys. ys ! k =
                 (if \<exists>c0. (k, c0) \<in> set ecs \<and> isActive c0
                  then map_option (\<lambda>c. c\<lparr>isActive := False\<rparr>) (codes ?d1 ! k)
                  else codes ?d1 ! k)"
      by blast
    have "\<forall>k < length ys. ys ! k =
                 (if \<exists>c1. (k, c1) \<in> set (e # ecs) \<and> isActive c1
                  then map_option (\<lambda>c. c\<lparr>isActive := False\<rparr>) (codes d ! k)
                  else codes d ! k)"
    proof (intro allI impI)
      fix k assume "k < length ys"
      note yk = ys(3) [rule_format, OF \<open>k < length ys\<close>]
      have sel: "codes ?d1 = ?xs" by simp
      have kl: "k < length (codes d)" using \<open>k < length ys\<close> ys(2) by simp
      show "ys ! k =
                 (if \<exists>c1. (k, c1) \<in> set (e # ecs) \<and> isActive c1
                  then map_option (\<lambda>c. c\<lparr>isActive := False\<rparr>) (codes d ! k)
                  else codes d ! k)"
      proof (cases "k = k0")
        case True
        then show ?thesis using yk k0 e \<open>isActive c0\<close> unfolding sel by auto
      next
        case False
        then show ?thesis using yk e unfolding sel by auto
      qed
    qed
    then show ?thesis
      using ys by (intro exI [of _ ys]) simp
  qed
qed


lemma deactivate_inactive: "\<not> isActive c \<Longrightarrow> c\<lparr>isActive := False\<rparr> = c"
  by (cases c) simp

lemma deactivate_existing:
  assumes nf: "\<not> failing d"
    and run: "deactivateAll
        (filter (\<lambda>(k, c). isActive c) (filter (\<lambda>(k, c). userId c = uid) (rows (codes d))))
        \<lparr>db = Some d, initPromise = q, indexedDB = i\<rparr> = (Inr (), m')"
  shows "m' = \<lparr>db = Some (d\<lparr>codes := retire uid (codes d)\<rparr>), initPromise = q, indexedDB = i\<rparr>"
proof -
  let ?ecs = "filter (\<lambda>(k, c). isActive c) (filter (\<lambda>(k, c). userId c = uid) (rows (codes d)))"
  from deactivateAll_open [OF nf run] obtain ys where
    m': "m' = \<lparr>db = Some (d\<lparr>codes := ys\<rparr>), initPromise = q, indexedDB = i\<rparr>"
    and len: "length ys = length (codes d)"
    and nth: "\<forall>k < length ys. ys ! k =
                 (if \<exists>c0. (k, c0) \<in> set ?ecs \<and> isActive c0
                  then map_option (\<lambda>c. c\<lparr>isActive := False\<rparr>) (codes d ! k)
                  else codes d ! k)"
    by blast
  have "ys = retire uid (codes d)"
  proof (rule nth_equalityI)
    show "length ys = length (retire uid (codes d))"
      using len by (simp add: retire_def)
  next
    fix k assume k: "k < length ys"
    have sel: "(\<exists>c0. (k, c0) \<in> set ?ecs \<and> isActive c0)
        = (\<exists>c0. codes d ! k = Some c0 \<and> userId c0 = uid \<and> isActive c0)"
      using k len by (auto simp: in_rows)
    show "ys ! k = retire uid (codes d) ! k"
    proof (cases "codes d ! k")
      case None
      then show ?thesis using nth k len by (simp add: retire_def sel)
    next
      case (Some c)
      then show ?thesis
        using nth [rule_format, OF k] k len unfolding sel
        by (auto simp: retire_def deactivate_inactive)
    qed
  qed
  with m' show ?thesis by simp
qed

lemma addCode_open:
  "\<not> failing d \<Longrightarrow>
   addCode uid cs ty act \<lparr>db = Some d, initPromise = q, indexedDB = i\<rparr> =
     (if list_ex (\<lambda>(k, r). code r = cs) (rows (codes d))
      then (Inl ConstraintError, \<lparr>db = Some d, initPromise = q, indexedDB = i\<rparr>)
      else (Inr (fst (tbl_add \<lparr>userId = uid, code = cs, type = ty, isActive = (act \<noteq> Some False)\<rparr> (codes d))),
            \<lparr>db = Some (d\<lparr>codes :=
                  snd (tbl_add \<lparr>userId = uid, code = cs, type = ty, isActive = (act \<noteq> Some False)\<rparr> (codes d))\<rparr>),
              initPromise = q, indexedDB = i\<rparr>))"
  by (simp add: addCode_def add_codes_def request_open split: prod.splits)

lemma readBack_quiet:
  assumes "\<not> failing d"
    and "readBack (\<lambda>m. m) a v ia iv \<lparr>db = Some d, initPromise = q, indexedDB = i\<rparr> = (r, m')"
  shows "m' = \<lparr>db = Some d, initPromise = q, indexedDB = i\<rparr>"
  using assms
  by (auto simp: readBack_def await_def getCode_open get_open sleep_def resolve_def reject_def
      split: if_splits)

lemma rows_snd_tbl_add: "rows (snd (tbl_add r xs)) = rows xs @ [(fst (tbl_add r xs), r)]"
  using rows_tbl_add [of r xs "fst (tbl_add r xs)" "snd (tbl_add r xs)"] by simp

lemma generateCodesForUser_open:
  assumes nf: "\<not> failing d"
    and run: "generateCodesForUser (\<lambda>m. m) (\<lambda>m. m) entropyAdmin entropyViewer uid
        \<lparr>db = Some d, initPromise = q, indexedDB = i\<rparr> = (Inr (adminCode, viewerCode), m')"
  shows "\<exists>ys ka kv. m' = \<lparr>db = Some (d\<lparr>codes := ys\<rparr>), initPromise = q, indexedDB = i\<rparr>
      \<and> rows ys = rows (retire uid (codes d))
          @ [(ka, \<lparr>userId = uid, code = adminCode, type = js ''admin'', isActive = True\<rparr>),
             (kv, \<lparr>userId = uid, code = viewerCode, type = js ''viewer'', isActive = True\<rparr>)]"
proof -
  let ?m = "\<lparr>db = Some d, initPromise = q, indexedDB = i\<rparr>"
  let ?d1 = "d\<lparr>codes := retire uid (codes d)\<rparr>"
  let ?m1 = "\<lparr>db = Some ?d1, initPromise = q, indexedDB = i\<rparr>"
  have nf1: "\<not> failing ?d1" using nf by simp
  from run have run': "await (getUserCodes uid None) (\<lambda>existingCodes.
        await (deactivateAll existingCodes) (\<lambda>_.
        await (uniqueCode (js ''admin'') entropyAdmin 0) (\<lambda>adminCode.
        await (uniqueCode (js ''viewer'') entropyViewer 0) (\<lambda>viewerCode.
        await (addCode uid adminCode (js ''admin'') (Some True)) (\<lambda>adminCodeId.
        await (addCode uid viewerCode (js ''viewer'') (Some True)) (\<lambda>viewerCodeId.
        await (sleep (\<lambda>m. m)) (\<lambda>_.
        await (readBack (\<lambda>m. m) adminCode viewerCode adminCodeId viewerCodeId) (\<lambda>_.
        resolve (adminCode, viewerCode))))))))) ?m = (Inr (adminCode, viewerCode), m')"
    by (simp add: generateCodesForUser_def try_catch_rethrow await_resolved [where p = init_if_needed, OF init_if_needed_open])
  from run' have s2: "await (deactivateAll
          (filter (\<lambda>(k, c). isActive c) (filter (\<lambda>(k, c). userId c = uid) (rows (codes d))))) (\<lambda>_.
        await (uniqueCode (js ''admin'') entropyAdmin 0) (\<lambda>adminCode.
        await (uniqueCode (js ''viewer'') entropyViewer 0) (\<lambda>viewerCode.
        await (addCode uid adminCode (js ''admin'') (Some True)) (\<lambda>adminCodeId.
        await (addCode uid viewerCode (js ''viewer'') (Some True)) (\<lambda>viewerCodeId.
        await (sleep (\<lambda>m. m)) (\<lambda>_.
        await (readBack (\<lambda>m. m) adminCode viewerCode adminCodeId viewerCodeId) (\<lambda>_.
        resolve (adminCode, viewerCode)))))))) ?m = (Inr (adminCode, viewerCode), m')"
    by (simp add: await_resolved [where p = "getUserCodes uid None", OF getUserCodes_open [OF nf]])
  from s2 obtain u0 m1 where
    d1: "deactivateAll
          (filter (\<lambda>(k, c). isActive c) (filter (\<lambda>(k, c). userId c = uid) (rows (codes d)))) ?m
          = (Inr u0, m1)"
    and s3: "await (uniqueCode (js ''admin'') entropyAdmin 0) (\<lambda>adminCode.
        await (uniqueCode (js ''viewer'') entropyViewer 0) (\<lambda>viewerCode.
        await (addCode uid adminCode (js ''admin'') (Some True)) (\<lambda>adminCodeId.
        await (addCode uid viewerCode (js ''viewer'') (Some True)) (\<lambda>viewerCodeId.
        await (sleep (\<lambda>m. m)) (\<lambda>_.
        await (readBack (\<lambda>m. m) adminCode viewerCode adminCodeId viewerCodeId) (\<lambda>_.
        resolve (adminCode, viewerCode))))))) m1 = (Inr (adminCode, viewerCode), m')"
    by (rule await_InrE)
  from d1 have m1: "m1 = ?m1"
    using deactivate_existing [OF nf] by simp
  obtain a where a: "uniqueCode (js ''admin'') entropyAdmin 0 ?m1 = (Inr a, ?m1)"
    using uniqueCode_open [OF nf1] by blast
  obtain v where v: "uniqueCode (js ''viewer'') entropyViewer 0 ?m1 = (Inr v, ?m1)"
    using uniqueCode_open [OF nf1] by blast
  from s3 have s5: "await (addCode uid a (js ''admin'') (Some True)) (\<lambda>adminCodeId.
        await (addCode uid v (js ''viewer'') (Some True)) (\<lambda>viewerCodeId.
        await (sleep (\<lambda>m. m)) (\<lambda>_.
        await (readBack (\<lambda>m. m) a v adminCodeId viewerCodeId) (\<lambda>_.
        resolve (a, v))))) ?m1 = (Inr (adminCode, viewerCode), m')"
    unfolding m1 by (simp add: await_resolved [where p = "uniqueCode (js ''admin'') entropyAdmin 0", OF a]
        await_resolved [where p = "uniqueCode (js ''viewer'') entropyViewer 0", OF v])
  let ?A = "\<lparr>userId = uid, code = a, type = js ''admin'', isActive = True\<rparr>"
  let ?V = "\<lparr>userId = uid, code = v, type = js ''viewer'', isActive = True\<rparr>"
  let ?xs2 = "snd (tbl_add ?A (retire uid (codes d)))"
  let ?d2 = "d\<lparr>codes := ?xs2\<rparr>"
  let ?xs3 = "snd (tbl_add ?V ?xs2)"
  let ?d3 = "d\<lparr>codes := ?xs3\<rparr>"
  let ?m3 = "\<lparr>db = Some ?d3, initPromise = q, indexedDB = i\<rparr>"
  have nf2: "\<not> failing ?d2" and nf3: "\<not> failing ?d3" using nf by simp_all
  from s5 obtain ka m2 where
    add1: "addCode uid a (js ''admin'') (Some True) ?m1 = (Inr ka, m2)"
    and s6: "await (addCode uid v (js ''viewer'') (Some True)) (\<lambda>viewerCodeId.
        await (sleep (\<lambda>m. m)) (\<lambda>_.
        await (readBack (\<lambda>m. m) a v ka viewerCodeId) (\<lambda>_.
        resolve (a, v)))) m2 = (Inr (adminCode, viewerCode), m')"
    by (rule await_InrE)
  from add1 have m2: "m2 = \<lparr>db = Some ?d2, initPromise = q, indexedDB = i\<rparr>"
    and ka: "ka = fst (tbl_add ?A (retire uid (codes d)))"
    by (auto simp: addCode_open [OF nf1] split: if_splits)
  from s6 obtain kv m3 where
    add2: "addCode uid v (js ''viewer'') (Some True) m2 = (Inr kv, m3)"
    and s7: "await (sleep (\<lambda>m. m)) (\<lambda>_.
        await (readBack (\<lambda>m. m) a v ka kv) (\<lambda>_.
        resolve (a, v))) m3 = (Inr (adminCode, viewerCode), m')"
    by (rule await_InrE)
  from add2 have m3: "m3 = ?m3" and kv: "kv = fst (tbl_add ?V ?xs2)"
    unfolding m2 by (auto simp: addCode_open [OF nf2] split: if_splits)
  from s7 have s8: "await (readBack (\<lambda>m. m) a v ka kv) (\<lambda>_. resolve (a, v)) ?m3
      = (Inr (adminCode, viewerCode), m')"
    unfolding m3 by (simp add: await_def sleep_def)
  from s8 obtain u1 m4 where
    rb: "readBack (\<lambda>m. m) a v ka kv ?m3 = (Inr u1, m4)"
    and fin: "resolve (a, v) m4 = (Inr (adminCode, viewerCode), m')"
    by (rule await_InrE)
  from rb have m4: "m4 = ?m3" by (rule readBack_quiet [OF nf3])
  from fin have res: "a = adminCode" "v = viewerCode" "m' = m4"
    by (simp_all add: resolve_def)
  have "rows ?xs3 = rows (retire uid (codes d)) @ [(ka, ?A), (kv, ?V)]"
    by (simp add: rows_snd_tbl_add ka kv)
  then show ?thesis
    using res m4 by blast
qed


lemma rows_from_retire:
  "rows_from n (retire uid xs) =
     map (\<lambda>(k, c). (k, if userId c = uid then c\<lparr>isActive := False\<rparr> else c)) (rows_from n xs)"
proof (induction xs arbitrary: n)
  case Nil
  then show ?case by (simp add: retire_def)
next
  case (Cons x xs)
  then show ?case by (cases x) (simp_all add: retire_def)
qed

lemma no_active_retired:
  "filter (\<lambda>(k, c). userId c = uid \<and> type c = ty \<and> isActive c) (rows (retire uid xs)) = []"
  by (auto simp: rows_def rows_from_retire filter_empty_conv split: if_splits)

lemma retired_row:
  assumes "(k, c) \<in> set (rows xs)" and "userId c = uid"
  shows "k < length (retire uid xs) \<and> retire uid xs ! k = Some (c\<lparr>isActive := False\<rparr>)"
  using assms by (auto simp: in_rows retire_def)

lemma getUserCodes_failing:
  "failing d \<Longrightarrow>
   getUserCodes uid ty \<lparr>db = Some d, initPromise = q, indexedDB = i\<rparr> = (Inr [], \<lparr>db = Some d, initPromise = q, indexedDB = i\<rparr>)"
  by (simp add: getUserCodes_def await_def init_if_needed_open try_catch_def getAll_def
      request_failing resolve_def)

lemma getCode_failing:
  "failing d \<Longrightarrow>
   getCode cs \<lparr>db = Some d, initPromise = q, indexedDB = i\<rparr> = (Inl RequestFailed, \<lparr>db = Some d, initPromise = q, indexedDB = i\<rparr>)"
  by (simp add: getCode_def await_def getAll_def request_failing)

lemma generateCodesForUser_failing:
  "failing d \<Longrightarrow>
   generateCodesForUser others1 others2 entropyAdmin entropyViewer uid \<lparr>db = Some d, initPromise = q, indexedDB = i\<rparr>
     = (Inl RequestFailed, \<lparr>db = Some d, initPromise = q, indexedDB = i\<rparr>)"
  by (simp add: generateCodesForUser_def try_catch_rethrow await_def init_if_needed_open
      getUserCodes_failing uniqueCode.simps [of _ _ 0] getCode_failing)

lemma generateCodesForUser_database_of:
  "database_of m = Some d \<Longrightarrow>
   generateCodesForUser others1 others2 entropyAdmin entropyViewer uid m =
   generateCodesForUser others1 others2 entropyAdmin entropyViewer uid
     \<lparr>db = Some d, initPromise = (db m \<noteq> None \<and> initPromise m), indexedDB = indexedDB m\<rparr>"
  by (cases m)
    (auto simp: database_of_def generateCodesForUser_def getUserCodes_def await_def
      try_catch_rethrow init_if_needed_def init_def split: option.splits)

subsection \<open>The uniqueness loop and the read-back\<close>

lemma uniqueCode_from:
  assumes nf: "\<not> failing d" and a: "attempts < maxAttempts"
  shows "\<exists>n. attempts \<le> n \<and> n < maxAttempts
      \<and> uniqueCode ty entropy attempts \<lparr>db = Some d, initPromise = q, indexedDB = i\<rparr>
          = (Inr (candidate ty entropy n), \<lparr>db = Some d, initPromise = q, indexedDB = i\<rparr>)
      \<and> (\<forall>j. attempts \<le> j \<and> j < n \<longrightarrow> lookup_code (candidate ty entropy j) d \<noteq> None)
      \<and> (lookup_code (candidate ty entropy n) d = None \<or> n = maxAttempts - 1)"
  using a
proof (induction "maxAttempts - attempts" arbitrary: attempts)
  case 0
  then show ?case by simp
next
  case (Suc k)
  let ?m = "\<lparr>db = Some d, initPromise = q, indexedDB = i\<rparr>"
  show ?case
  proof (cases "lookup_code (candidate ty entropy attempts) d")
    case None
    then have "uniqueCode ty entropy attempts ?m = (Inr (candidate ty entropy attempts), ?m)"
      by (subst uniqueCode.simps) (simp add: getCode_open [OF nf] candidate_def Let_def)
    with None Suc.prems show ?thesis
      by (intro exI [of _ attempts]) auto
  next
    case (Some existing)
    show ?thesis
    proof (cases "attempts + 1 < maxAttempts")
      case False
      with Some have "uniqueCode ty entropy attempts ?m = (Inr (candidate ty entropy attempts), ?m)"
        by (subst uniqueCode.simps) (simp add: getCode_open [OF nf] candidate_def Let_def)
      with False Suc.prems show ?thesis
        by (intro exI [of _ attempts]) auto
    next
      case True
      with Some have step: "uniqueCode ty entropy attempts ?m = uniqueCode ty entropy (attempts + 1) ?m"
        by (subst uniqueCode.simps) (simp add: getCode_open [OF nf] candidate_def Let_def)
      from Suc.hyps(2) have "k = maxAttempts - (attempts + 1)" by simp
      from Suc.hyps(1) [OF this True] obtain n where
        n: "attempts + 1 \<le> n" "n < maxAttempts"
          "uniqueCode ty entropy (attempts + 1) ?m = (Inr (candidate ty entropy n), ?m)"
          "\<forall>j. attempts + 1 \<le> j \<and> j < n \<longrightarrow> lookup_code (candidate ty entropy j) d \<noteq> None"
          "lookup_code (candidate ty entropy n) d = None \<or> n = maxAttempts - 1"
        by blast
      have "\<forall>j. attempts \<le> j \<and> j < n \<longrightarrow> lookup_code (candidate ty entropy j) d \<noteq> None"
      proof (intro allI impI)
        fix j assume j: "attempts \<le> j \<and> j < n"
        show "lookup_code (candidate ty entropy j) d \<noteq> None"
        proof (cases "j = attempts")
          case True
          with Some show ?thesis by simp
        next
          case False
          with j n(4) show ?thesis by simp
        qed
      qed
      with n step show ?thesis
        by (intro exI [of _ n]) simp
    qed
  qed
qed

lemma readBack_open:
  assumes nf: "\<not> failing d" and nf': "\<not> failing d'"
    and o: "others \<lparr>db = Some d, initPromise = q, indexedDB = i\<rparr> = \<lparr>db = Some d', initPromise = q', indexedDB = i'\<rparr>"
  shows "readBack others adminCode viewerCode adminCodeId viewerCodeId \<lparr>db = Some d, initPromise = q, indexedDB = i\<rparr> =
     (if (lookup_code adminCode d \<noteq> None \<or> tbl_get (codes d) adminCodeId \<noteq> None)
         \<and> (lookup_code viewerCode d \<noteq> None \<or> tbl_get (codes d) viewerCodeId \<noteq> None)
      then (Inr (), \<lparr>db = Some d, initPromise = q, indexedDB = i\<rparr>)
      else if lookup_code adminCode d' \<noteq> None \<and> lookup_code viewerCode d' \<noteq> None
      then (Inr (), \<lparr>db = Some d', initPromise = q', indexedDB = i'\<rparr>)
      else (Inl VerificationFailed, \<lparr>db = Some d', initPromise = q', indexedDB = i'\<rparr>))"
  by (auto simp: readBack_def await_def getCode_open [OF nf] get_open [OF nf]
      getCode_open [OF nf'] sleep_def o resolve_def reject_def)

subsection \<open>Verification on an open database\<close>

lemma verifyCode_open:
  "\<not> failing d \<Longrightarrow>
   verifyCode (\<lambda>m. m) (\<lambda>m. m) codeString now \<lparr>db = Some d, initPromise = q, indexedDB = i\<rparr>
     = (Inr (verdict codeString now d), \<lparr>db = Some d, initPromise = q, indexedDB = i\<rparr>)"
  by (simp add: verifyCode_def verdict_def await_def try_catch_def init_if_needed_open
      getCode_open getUser_def get_open getUserCodes_open resolve_def reject_def Let_def
      meanwhile_def split: option.splits prod.splits sum.splits)

lemma verifyCode_first_fails:
  "failing d \<Longrightarrow>
   verifyCode others1 others2 codeString now \<lparr>db = Some d, initPromise = q, indexedDB = i\<rparr>
     = (Inr (Failure (js ''ERROR'')), \<lparr>db = Some d, initPromise = q, indexedDB = i\<rparr>)"
  by (simp add: verifyCode_def await_def try_catch_def init_if_needed_open getCode_failing
      resolve_def)


text \<open>On a manager that \<open>init\<close> was never called on, \<open>verifyCode\<close> starts the open
  request and then looks up with \<open>this.db\<close> still \<open>null\<close>; when the pending open request
  fails, the rejection of \<open>init\<close> leaves \<open>verifyCode\<close>, whose \<open>try\<close> starts later.\<close>

lemma verifyCode_unopened:
  "db m = None \<Longrightarrow> \<not> initPromise m \<Longrightarrow>
   verifyCode others1 others2 codeString now m
     = (Inr (Failure (js ''ERROR'')), m\<lparr>initPromise := True\<rparr>)"
  by (simp add: verifyCode_def await_def try_catch_def init_if_needed_def init_def getCode_def
      getAll_def request_def resolve_def)

lemma verifyCode_open_fails:
  "db m = None \<Longrightarrow> initPromise m \<Longrightarrow> indexedDB m = None \<Longrightarrow>
   verifyCode others1 others2 codeString now m = (Inl OpenFailed, m\<lparr>initPromise := False\<rparr>)"
  by (simp add: verifyCode_def await_def init_if_needed_def init_def)

lemma deriveTier_string: "deriveTier (Some p) = Inr (spec_tier p)"
  by (auto simp: deriveTier_def spec_tier_def truthy_string_def String_includes_def js_def
      arabic_yearly_def)

lemma deriveTier_missing: "deriveTier None = Inl TypeError"
  by (simp add: deriveTier_def truthy_string_def)

lemma verifyCode_Success_tier:
  assumes "verifyCode others1 others2 codeString now m
      = (Inr (Success r u t ca cv uid nm em (Some p)), m')"
  shows "t = spec_tier p"
proof -
  have "deriveTier (Some p) = Inr t"
    using assms
    by (auto simp: verifyCode_def await_def try_catch_def resolve_def reject_def Let_def
        split: prod.splits sum.splits option.splits if_splits)
  then show ?thesis by (simp add: deriveTier_string)
qed

subsection \<open>Codes from long enough renderings\<close>

text \<open>When the clock reading has at least four radix-36 digits and the random draw prints
  at least four digits after the point, the code has the format.\<close>

lemma digits36_bound: "\<forall>d \<in> set (digits36 n). d < 36"
proof (induction n rule: digits36.induct)
  case (1 n)
  then show ?case by (subst digits36.simps) auto
qed

lemma digits36_length: "36 ^ k \<le> n \<Longrightarrow> k < length (digits36 n)"
proof (induction n arbitrary: k rule: digits36.induct)
  case (1 n)
  show ?case
  proof (cases "n < 36")
    case True
    have "k = 0"
    proof (rule ccontr)
      assume "k \<noteq> 0"
      then obtain j where "k = Suc j" by (cases k) auto
      moreover have "(1::nat) \<le> 36 ^ j" by simp
      ultimately have "(36::nat) \<le> 36 ^ k" by simp
      with "1.prems" True show False by simp
    qed
    then show ?thesis by (subst digits36.simps) simp
  next
    case False
    show ?thesis
    proof (cases k)
      case 0
      then show ?thesis by (subst digits36.simps) simp
    next
      case (Suc j)
      with "1.prems" have "36 ^ j \<le> n div 36"
        by (simp add: less_eq_div_iff_mult_less_eq mult.commute)
      from "1.IH" [OF False this] Suc False show ?thesis
        by (subst digits36.simps) simp
    qed
  qed
qed

lemma digit_chars: "list_all (\<lambda>d. code_char (upperUnit (digit36 d))) [0..<36]"
  by code_simp

lemma digit_char: "d < 36 \<Longrightarrow> code_char (upperUnit (digit36 d))"
  using digit_chars by (simp add: list_all_iff)

lemma generateCode_format:
  assumes now: "36 ^ 3 \<le> now" and len: "4 \<le> length rnd" and digits: "\<forall>d \<in> set rnd. d < 36"
  shows "code_format (generateCode ty now rnd)"
proof -
  let ?ts = "digits36 (nat now)"
  have "36 ^ 3 \<le> nat now" using now by (simp add: le_nat_iff)
  from digits36_length [OF this] have tlen: "4 \<le> length ?ts" by simp
  have stamp: "Number_toString36 now = map digit36 ?ts"
    using now by (simp add: Number_toString36_def)
  have slice: "length (slice_last 4 (map digit36 ?ts)) = 4"
    using tlen by (simp add: slice_last_def)
  have slice_chars: "list_all code_char (toUpperCase (slice_last 4 (map digit36 ?ts)))"
    using digits36_bound [of "nat now"]
    by (auto simp: list_all_iff toUpperCase_def slice_last_def drop_map digit_char
        dest!: in_set_dropD)
  have rnd: "substring 2 6 (random_toString36 rnd) = map digit36 (take 4 rnd)"
    using len by (auto simp: substring_def random_toString36_def js_def Let_def take_map min_def)
  have rnd_chars: "list_all code_char (toUpperCase (map digit36 (take 4 rnd)))"
    using digits by (auto simp: list_all_iff toUpperCase_def digit_char dest!: in_set_takeD)
  have rnd_len: "length (toUpperCase (map digit36 (take 4 rnd))) = 4"
    using len by (simp add: toUpperCase_def)
  show ?thesis
    using slice slice_chars rnd_chars rnd_len
    by (simp add: code_format_def generateCode_def Let_def stamp rnd js_def toUpperCase_def)
qed

subsection \<open>Running the model on the example data\<close>

lemmas store_defs =
  request_def add_codes_def get_def getAll_def update_codes_def delete_def init_def
  init_if_needed_def tbl_get_def tbl_put_def tbl_add_def tbl_delete_def rows_def
  await_def try_catch_def resolve_def reject_def sleep_def

lemmas code_defs =
  addCode_def getCode_def getUser_def getUserCodes_def updateCode_def deleteCode_def
  deleteUserCodes_def deleteUserSubscriptions_def deleteUser_def truthy_string_def
  spread_def deactivation_def

lemmas string_defs =
  js_def String_includes_def slice_last_def substring_def upperUnit_def toUpperCase_def
  digit36_def Number_toString36_def random_toString36_def generateCode_def

lemma run_shop:
  "generateCodesForUser (\<lambda>m. m) (\<lambda>m. m) steady steady 1 \<lparr>db = Some shop, initPromise = False, indexedDB = None\<rparr>
   = (Inr (js ''ADM-3V28I723'', js ''VWR-3V28I723''),
      \<lparr>db = Some (shop\<lparr>codes := [None,
             Some \<lparr>userId = 1, code = js ''ADM-AAAA1111'', type = js ''admin'', isActive = False\<rparr>,
             Some \<lparr>userId = 1, code = js ''VWR-AAAA1111'', type = js ''viewer'', isActive = False\<rparr>,
             Some \<lparr>userId = 1, code = js ''ADM-3V28I723'', type = js ''admin'', isActive = True\<rparr>,
             Some \<lparr>userId = 1, code = js ''VWR-3V28I723'', type = js ''viewer'', isActive = True\<rparr>]\<rparr>),
        initPromise = False, indexedDB = None\<rparr>)"
  by (simp add: generateCodesForUser_def readBack_def uniqueCode.simps [of _ _ 0] steady_def
      string_defs digits36.simps store_defs code_defs shop_def Let_def maxAttempts_def)

text \<open>Regenerating again with the same clock reading and the same random draw: all ten
  candidates are taken, the loop returns the tenth, and the unique index refuses it.\<close>

lemma run_shop_again:
  "fst (generateCodesForUser (\<lambda>m. m) (\<lambda>m. m) steady steady 1
      \<lparr>db = Some (shop\<lparr>codes := [None,
             Some \<lparr>userId = 1, code = js ''ADM-AAAA1111'', type = js ''admin'', isActive = False\<rparr>,
             Some \<lparr>userId = 1, code = js ''VWR-AAAA1111'', type = js ''viewer'', isActive = False\<rparr>,
             Some \<lparr>userId = 1, code = js ''ADM-3V28I723'', type = js ''admin'', isActive = True\<rparr>,
             Some \<lparr>userId = 1, code = js ''VWR-3V28I723'', type = js ''viewer'', isActive = True\<rparr>]\<rparr>),
        initPromise = False, indexedDB = None\<rparr>) = Inl ConstraintError"
  by (simp add: generateCodesForUser_def readBack_def uniqueCode.simps steady_def
      string_defs digits36.simps store_defs code_defs shop_def Let_def maxAttempts_def)

text \<open>Another caller deletes the new admin code (id 3) during the first sleep: both
  look-ups miss, the retry misses, and regeneration rejects.\<close>

lemma run_shop_interrupted:
  "fst (generateCodesForUser (\<lambda>m. snd (deleteCode 3 m)) (\<lambda>m. m) steady steady 1
      \<lparr>db = Some shop, initPromise = False, indexedDB = None\<rparr>) = Inl VerificationFailed"
  by (simp add: generateCodesForUser_def readBack_def uniqueCode.simps [of _ _ 0] steady_def
      string_defs digits36.simps store_defs code_defs shop_def Let_def maxAttempts_def)

lemma verify_shop:
  "verifyCode (\<lambda>m. m) (\<lambda>m. m) (js ''ADM-AAAA1111'') 1700000000000 \<lparr>db = Some shop, initPromise = False, indexedDB = None\<rparr>
   = (Inr (Success (js ''admin'') 1715552000000 (js ''Pro-6'') (js ''ADM-AAAA1111'') []
             1 (js ''Ann'') (js ''ann@example.org'') (Some (js ''Plan-6-Premium''))),
      \<lparr>db = Some shop, initPromise = False, indexedDB = None\<rparr>)"
  by (simp add: verifyCode_open verdict_def lookup_code_def find_code_def deriveTier_string
      spec_tier_def shop_def ann_def rows_def tbl_get_def String_includes_def js_def
      arabic_yearly_def sublist_code)

subsection \<open>The steps of regeneration\<close>

lemma attempt_props:
  "attempt ty entropy d < maxAttempts
   \<and> (\<forall>j < attempt ty entropy d. lookup_code (candidate ty entropy j) d \<noteq> None)
   \<and> (lookup_code (candidate ty entropy (attempt ty entropy d)) d = None
        \<or> attempt ty entropy d = maxAttempts - 1)"
proof (cases "List.find (\<lambda>n. lookup_code (candidate ty entropy n) d = None) [0..<maxAttempts]")
  case None
  then have "\<forall>j < maxAttempts. lookup_code (candidate ty entropy j) d \<noteq> None"
    by (auto simp: find_None_iff)
  with None show ?thesis
    by (auto simp: attempt_def maxAttempts_def)
next
  case (Some n)
  then obtain i where i: "i < length [0..<maxAttempts]"
      "lookup_code (candidate ty entropy ([0..<maxAttempts] ! i)) d = None"
      "n = [0..<maxAttempts] ! i"
      "\<forall>j < i. lookup_code (candidate ty entropy ([0..<maxAttempts] ! j)) d \<noteq> None"
    unfolding find_Some_iff by blast
  from i(1) have lt: "i < maxAttempts" by simp
  then have n: "n = i" using i(3) by simp
  have "\<forall>j < i. lookup_code (candidate ty entropy j) d \<noteq> None"
  proof (intro allI impI)
    fix j assume "j < i"
    with i(4) have "lookup_code (candidate ty entropy ([0..<maxAttempts] ! j)) d \<noteq> None"
      by blast
    moreover have "[0..<maxAttempts] ! j = j"
      using \<open>j < i\<close> lt by simp
    ultimately show "lookup_code (candidate ty entropy j) d \<noteq> None"
      by simp
  qed
  moreover have "lookup_code (candidate ty entropy i) d = None"
    using i(2) lt by simp
  ultimately show ?thesis
    using Some lt n by (simp add: attempt_def)
qed

lemma attempt_unique:
  assumes "n < maxAttempts"
    and "\<forall>j < n. lookup_code (candidate ty entropy j) d \<noteq> None"
    and "lookup_code (candidate ty entropy n) d = None \<or> n = maxAttempts - 1"
  shows "n = attempt ty entropy d"
proof -
  let ?a = "attempt ty entropy d"
  from attempt_props [of ty entropy d] have a:
    "?a < maxAttempts" "\<forall>j < ?a. lookup_code (candidate ty entropy j) d \<noteq> None"
    "lookup_code (candidate ty entropy ?a) d = None \<or> ?a = maxAttempts - 1"
    by blast+
  show ?thesis
  proof (rule ccontr)
    assume "n \<noteq> ?a"
    then consider "n < ?a" | "?a < n" by linarith
    then show False
    proof cases
      case 1
      with a(2) have "lookup_code (candidate ty entropy n) d \<noteq> None" by blast
      with assms(3) have "n = maxAttempts - 1" by blast
      with 1 a(1) show False by simp
    next
      case 2
      with assms(2) have "lookup_code (candidate ty entropy ?a) d \<noteq> None" by blast
      with a(3) have "?a = maxAttempts - 1" by blast
      with 2 assms(1) show False by simp
    qed
  qed
qed

lemma uniqueCode_attempt:
  assumes "\<not> failing d"
  shows "uniqueCode ty entropy 0 \<lparr>db = Some d, initPromise = q, indexedDB = i\<rparr>
      = (Inr (candidate ty entropy (attempt ty entropy d)), \<lparr>db = Some d, initPromise = q, indexedDB = i\<rparr>)"
proof -
  have pos: "0 < maxAttempts" by (simp add: maxAttempts_def)
  from uniqueCode_from [OF assms pos, of ty entropy q i] obtain n where
    n: "n < maxAttempts"
      "uniqueCode ty entropy 0 \<lparr>db = Some d, initPromise = q, indexedDB = i\<rparr>
          = (Inr (candidate ty entropy n), \<lparr>db = Some d, initPromise = q, indexedDB = i\<rparr>)"
      "\<forall>j < n. lookup_code (candidate ty entropy j) d \<noteq> None"
      "lookup_code (candidate ty entropy n) d = None \<or> n = maxAttempts - 1"
    by auto
  from attempt_unique [OF n(1) n(3) n(4)] n(2) show ?thesis by simp
qed

lemma distinct_rows_from: "distinct (rows_from n xs)"
proof (induction xs arbitrary: n)
  case Nil
  then show ?case by simp
next
  case (Cons x xs)
  then show ?case by (cases x) (auto simp: in_rows_from)
qed

lemma in_rows_tbl_get: "(k, r) \<in> set (rows xs) \<longleftrightarrow> tbl_get xs k = Some r"
  by (auto simp: in_rows tbl_get_def)

lemma unique_codes_iff:
  "unique_codes d \<longleftrightarrow>
     (\<forall>j k c c'. tbl_get (codes d) j = Some c \<and> tbl_get (codes d) k = Some c' \<and> code c = code c'
        \<longrightarrow> j = k)"
proof -
  have inj: "unique_codes d \<longleftrightarrow> inj_on (\<lambda>(k, c). code c) (set (rows (codes d)))"
    by (simp add: unique_codes_def distinct_map rows_def distinct_rows_from)
  show ?thesis
  proof
    assume "unique_codes d"
    with inj have i: "inj_on (\<lambda>(k, c). code c) (set (rows (codes d)))" by simp
    show "\<forall>j k c c'. tbl_get (codes d) j = Some c \<and> tbl_get (codes d) k = Some c' \<and> code c = code c'
        \<longrightarrow> j = k"
    proof (intro allI impI)
      fix j k c c'
      assume h: "tbl_get (codes d) j = Some c \<and> tbl_get (codes d) k = Some c' \<and> code c = code c'"
      then have mem: "(j, c) \<in> set (rows (codes d))" "(k, c') \<in> set (rows (codes d))"
        by (simp_all add: in_rows_tbl_get)
      from h have "(case (j, c) of (k, c) \<Rightarrow> code c) = (case (k, c') of (k, c) \<Rightarrow> code c)"
        by simp
      from inj_onD [OF i this mem] show "j = k" by simp
    qed
  next
    assume u: "\<forall>j k c c'. tbl_get (codes d) j = Some c \<and> tbl_get (codes d) k = Some c' \<and> code c = code c'
        \<longrightarrow> j = k"
    have "inj_on (\<lambda>(k, c). code c) (set (rows (codes d)))"
    proof (rule inj_onI)
      fix x y
      assume x: "x \<in> set (rows (codes d))" and y: "y \<in> set (rows (codes d))"
        and e: "(case x of (k, c) \<Rightarrow> code c) = (case y of (k, c) \<Rightarrow> code c)"
      obtain j c where xj: "x = (j, c)" by (cases x)
      obtain k c' where yk: "y = (k, c')" by (cases y)
      from x y xj yk have g: "tbl_get (codes d) j = Some c" "tbl_get (codes d) k = Some c'"
        by (simp_all add: in_rows_tbl_get)
      from e xj yk have "code c = code c'" by simp
      with u g have "j = k" by blast
      with g have "c = c'" by simp
      with \<open>j = k\<close> xj yk show "x = y" by simp
    qed
    with inj show "unique_codes d" by simp
  qed
qed

lemma lookup_code_None_iff:
  "lookup_code cs d = None \<longleftrightarrow> \<not> list_ex (\<lambda>(k, r). code r = cs) (rows (codes d))"
proof -
  have "lookup_code cs d = None \<longleftrightarrow> filter (\<lambda>(k, c). code c = cs) (rows (codes d)) = []"
    by (simp add: lookup_code_def split: list.splits)
  then show ?thesis
    by (auto simp: list_ex_iff filter_empty_conv)
qed

lemma deactivateAll_succeeds:
  assumes "\<not> failing d" and "unique_codes d"
    and "\<forall>(k, c0) \<in> set ecs. tbl_get (codes d) k \<noteq> None"
  shows "\<exists>m'. deactivateAll ecs \<lparr>db = Some d, initPromise = q, indexedDB = i\<rparr> = (Inr (), m')"
  using assms
proof (induction ecs arbitrary: d)
  case Nil
  then show ?case by simp
next
  case (Cons e ecs)
  obtain k0 c0 where e: "e = (k0, c0)" by (cases e)
  from Cons.prems(3) have rest: "\<forall>(k, c0) \<in> set ecs. tbl_get (codes d) k \<noteq> None"
    by simp
  show ?case
  proof (cases "isActive c0")
    case False
    with Cons.IH [OF Cons.prems(1,2) rest] e show ?thesis by simp
  next
    case True
    from Cons.prems(3) e obtain c where c: "tbl_get (codes d) k0 = Some c" by auto
    then have k0: "k0 < length (codes d)" "codes d ! k0 = Some c"
      by (auto simp: tbl_get_def split: if_splits)
    let ?c' = "c\<lparr>isActive := False\<rparr>"
    let ?d1 = "d\<lparr>codes := (codes d)[k0 := Some ?c']\<rparr>"
    have free: "\<not> list_ex (\<lambda>(k', r). k' \<noteq> k0 \<and> code r = code ?c') (rows (codes d))"
      using Cons.prems(2) c by (auto simp: list_ex_iff unique_codes_iff in_rows_tbl_get)
    have step: "updateCode k0 deactivation \<lparr>db = Some d, initPromise = q, indexedDB = i\<rparr>
        = (Inr k0, \<lparr>db = Some ?d1, initPromise = q, indexedDB = i\<rparr>)"
      using free k0 by (simp add: updateCode_open [OF Cons.prems(1)] c spread_deactivation tbl_put_def)
    have get1: "tbl_get ((codes d)[k0 := Some ?c']) k
        = (if k = k0 then Some ?c' else tbl_get (codes d) k)" for k
      using k0 by (auto simp: tbl_get_def)
    have nf1: "\<not> failing ?d1" using Cons.prems(1) by simp
    have uq1: "unique_codes ?d1"
      unfolding unique_codes_iff
    proof (intro allI impI)
      fix j k a b
      assume "tbl_get (codes ?d1) j = Some a \<and> tbl_get (codes ?d1) k = Some b \<and> code a = code b"
      then have h: "(if j = k0 then Some ?c' else tbl_get (codes d) j) = Some a"
        "(if k = k0 then Some ?c' else tbl_get (codes d) k) = Some b" "code a = code b"
        by (simp_all add: get1)
      define a0 where "a0 = (if j = k0 then c else a)"
      define b0 where "b0 = (if k = k0 then c else b)"
      have "tbl_get (codes d) j = Some a0" "tbl_get (codes d) k = Some b0" "code a0 = code b0"
        using h c by (auto simp: a0_def b0_def split: if_splits)
      with Cons.prems(2) show "j = k" unfolding unique_codes_iff by blast
    qed
    have rest1: "\<forall>(k, c0) \<in> set ecs. tbl_get (codes ?d1) k \<noteq> None"
      using rest by (auto simp: get1 simp del: fun_upd_apply)
    from Cons.IH [OF nf1 uq1 rest1] obtain m' where
      "deactivateAll ecs \<lparr>db = Some ?d1, initPromise = q, indexedDB = i\<rparr> = (Inr (), m')"
      by blast
    with step True e show ?thesis by simp
  qed
qed

lemma deactivation:
  assumes nf: "\<not> failing d" and uq: "unique_codes d"
  shows "deactivateAll
        (filter (\<lambda>(k, c). isActive c) (filter (\<lambda>(k, c). userId c = uid) (rows (codes d))))
        \<lparr>db = Some d, initPromise = q, indexedDB = i\<rparr>
      = (Inr (), \<lparr>db = Some (d\<lparr>codes := retire uid (codes d)\<rparr>), initPromise = q, indexedDB = i\<rparr>)"
proof -
  let ?ecs = "filter (\<lambda>(k, c). isActive c) (filter (\<lambda>(k, c). userId c = uid) (rows (codes d)))"
  have "\<forall>(k, c0) \<in> set ?ecs. tbl_get (codes d) k \<noteq> None"
    by (auto simp: in_rows_tbl_get)
  from deactivateAll_succeeds [OF nf uq this] obtain m' where
    run: "deactivateAll ?ecs \<lparr>db = Some d, initPromise = q, indexedDB = i\<rparr> = (Inr (), m')"
    by blast
  from deactivate_existing [OF nf run] run show ?thesis by simp
qed

lemma generateCodesForUser_steps:
  assumes nf: "\<not> failing d" and uq: "unique_codes d"
  shows "generateCodesForUser others1 others2 entropyAdmin entropyViewer uid
        \<lparr>db = Some d, initPromise = q, indexedDB = i\<rparr>
      = await (addCode uid
            (candidate (js ''admin'') entropyAdmin
               (attempt (js ''admin'') entropyAdmin (d\<lparr>codes := retire uid (codes d)\<rparr>)))
            (js ''admin'') (Some True)) (\<lambda>adminCodeId.
        await (addCode uid
            (candidate (js ''viewer'') entropyViewer
               (attempt (js ''viewer'') entropyViewer (d\<lparr>codes := retire uid (codes d)\<rparr>)))
            (js ''viewer'') (Some True)) (\<lambda>viewerCodeId.
        await (sleep others1) (\<lambda>_.
        await (readBack others2
            (candidate (js ''admin'') entropyAdmin
               (attempt (js ''admin'') entropyAdmin (d\<lparr>codes := retire uid (codes d)\<rparr>)))
            (candidate (js ''viewer'') entropyViewer
               (attempt (js ''viewer'') entropyViewer (d\<lparr>codes := retire uid (codes d)\<rparr>)))
            adminCodeId viewerCodeId) (\<lambda>_.
        resolve
          (candidate (js ''admin'') entropyAdmin
             (attempt (js ''admin'') entropyAdmin (d\<lparr>codes := retire uid (codes d)\<rparr>)),
           candidate (js ''viewer'') entropyViewer
             (attempt (js ''viewer'') entropyViewer (d\<lparr>codes := retire uid (codes d)\<rparr>)))))))
        \<lparr>db = Some (d\<lparr>codes := retire uid (codes d)\<rparr>), initPromise = q, indexedDB = i\<rparr>"
proof -
  let ?m = "\<lparr>db = Some d, initPromise = q, indexedDB = i\<rparr>"
  let ?d1 = "d\<lparr>codes := retire uid (codes d)\<rparr>"
  let ?m1 = "\<lparr>db = Some ?d1, initPromise = q, indexedDB = i\<rparr>"
  let ?ecs = "filter (\<lambda>(k, c). isActive c) (filter (\<lambda>(k, c). userId c = uid) (rows (codes d)))"
  have nf1: "\<not> failing ?d1" using nf by simp
  have e1: "await init_if_needed f ?m = f () ?m" for f :: "unit \<Rightarrow> (jsstring \<times> jsstring) promise"
    by (rule await_resolved) (rule init_if_needed_open)
  have e2: "await (getUserCodes uid None) f ?m = f ?ecs ?m"
    for f :: "(nat \<times> accessCode) list \<Rightarrow> (jsstring \<times> jsstring) promise"
    by (rule await_resolved) (rule getUserCodes_open [OF nf])
  have e3: "await (deactivateAll ?ecs) f ?m = f () ?m1"
    for f :: "unit \<Rightarrow> (jsstring \<times> jsstring) promise"
    by (rule await_resolved) (rule deactivation [OF nf uq])
  have e4: "await (uniqueCode ty entropy 0) f ?m1 = f (candidate ty entropy (attempt ty entropy ?d1)) ?m1"
    for f :: "jsstring \<Rightarrow> (jsstring \<times> jsstring) promise" and ty entropy
    by (rule await_resolved) (rule uniqueCode_attempt [OF nf1])
  show ?thesis
    unfolding generateCodesForUser_def try_catch_rethrow
    by (simp only: e1 e2 e3 e4)
qed

lemma readBack_outcome:
  assumes "db m = Some d" and "\<not> failing d"
    and "db (others m) = Some d'" and "\<not> failing d'"
  shows "readBack others adminCode viewerCode adminCodeId viewerCodeId m =
     (if (lookup_code adminCode d \<noteq> None \<or> tbl_get (codes d) adminCodeId \<noteq> None)
         \<and> (lookup_code viewerCode d \<noteq> None \<or> tbl_get (codes d) viewerCodeId \<noteq> None)
      then (Inr (), m)
      else if lookup_code adminCode d' \<noteq> None \<and> lookup_code viewerCode d' \<noteq> None
      then (Inr (), others m)
      else (Inl VerificationFailed, others m))"
proof -
  obtain q i where m: "m = \<lparr>db = Some d, initPromise = q, indexedDB = i\<rparr>"
    using assms(1) by (cases m) simp
  obtain q' i' where o: "others m = \<lparr>db = Some d', initPromise = q', indexedDB = i'\<rparr>"
    using assms(3) by (cases "others m") simp
  show ?thesis
    unfolding o unfolding m
    by (rule readBack_open [where others = others, OF assms(2) assms(4) o [unfolded m]])
qed

lemmas example_defs = shop_def restocked_def worn_def retire_def unique_codes_def lookup_code_def

subsection \<open>Failing look-ups of verification\<close>

lemma request_state_query: "snd (request e (\<lambda>d. (Inr (g d), d)) m) = m"
  by (cases m) (simp add: request_def split: option.splits)

lemma getCode_state: "snd (getCode codeString m) = m"
proof -
  have "snd (getAll codes (Some (\<lambda>c. code c = codeString)) m) = m"
    unfolding getAll_def by (rule request_state_query)
  then show ?thesis
    by (cases "getAll codes (Some (\<lambda>c. code c = codeString)) m")
      (auto simp: getCode_def await_def resolve_def split: sum.splits)
qed

lemma getUser_state: "snd (getUser uid m) = m"
  unfolding getUser_def get_def by (rule request_state_query)

lemma getCode_resolved: "fst (getCode codeString m) = Inr x \<Longrightarrow> db m \<noteq> None"
  by (auto simp: getCode_def await_def getAll_def request_def split: option.splits)



lemma verifyCode_deriveTier_fails:
  assumes "fst (getCode codeString m) = Inr (Some (codeId, c))" and "isActive c"
    and "fst (getUser (userId c) (others1 m)) = Inr (Some u)"
    and "\<not> (truthy_num (expiryDate u) \<and> num_less (expiryDate u) now)"
    and "deriveTier (product u) = Inl e"
  shows "fst (verifyCode others1 others2 codeString now m) = Inr (Failure (js ''ERROR''))"
proof -
  obtain d where opened: "db m = Some d"
    using getCode_resolved [OF assms(1)] by blast
  have code: "getCode codeString m = (Inr (Some (codeId, c)), m)"
    using assms(1) getCode_state [of codeString m] by (cases "getCode codeString m") simp
  have owner: "getUser (userId c) (others1 m) = (Inr (Some u), others1 m)"
    using assms(3) getUser_state [of "userId c" "others1 m"]
    by (cases "getUser (userId c) (others1 m)") simp
  obtain r m' where codes: "getUserCodes (userId c) None (others2 (others1 m)) = (r, m')"
    by (cases "getUserCodes (userId c) None (others2 (others1 m))")
  have valid: "(truthy_num (expiryDate u) \<and> num_less (expiryDate u) now) = False"
    using assms(4) by simp
  from opened code owner codes assms(2,5) show ?thesis
    by (cases r)
      (simp_all add: verifyCode_def await_def try_catch_def init_if_needed_def resolve_def
        reject_def meanwhile_def Let_def valid)
qed


section \<open>Regeneration leaves one active pair\<close>

text \<open>
  Claim C1. When \<open>generateCodesForUser\<close> resolves for a user, and no other caller
  touched the store during its two sleeps, the user has exactly one active admin code and
  exactly one active viewer code, namely the two codes returned, and every code of the
  user that was active before the call is still stored under its id and is inactive.
\<close>

theorem generateCodesForUser_active_pair:
  assumes run: "generateCodesForUser (\<lambda>m. m) (\<lambda>m. m) entropyAdmin entropyViewer uid m
        = (Inr (adminCode, viewerCode), m')"
    and before: "database_of m = Some d"
  shows "\<exists>d'. db m' = Some d'
      \<and> map (\<lambda>(k, c). code c) (active_codes uid (js ''admin'') d') = [adminCode]
      \<and> map (\<lambda>(k, c). code c) (active_codes uid (js ''viewer'') d') = [viewerCode]
      \<and> (\<forall>(k, c) \<in> set (rows (codes d)). userId c = uid \<and> isActive c \<longrightarrow>
            (\<exists>c'. tbl_get (codes d') k = Some c' \<and> code c' = code c \<and> \<not> isActive c'))"
proof -
  let ?i = "indexedDB m"
  let ?q = "db m \<noteq> None \<and> initPromise m"
  from run before have run': "generateCodesForUser (\<lambda>m. m) (\<lambda>m. m) entropyAdmin entropyViewer uid
        \<lparr>db = Some d, initPromise = ?q, indexedDB = ?i\<rparr> = (Inr (adminCode, viewerCode), m')"
    by (simp add: generateCodesForUser_database_of)
  have nf: "\<not> failing d"
  proof
    assume "failing d"
    from generateCodesForUser_failing [OF this] run' show False by simp
  qed
  from generateCodesForUser_open [OF nf run'] obtain ys ka kv where
    m': "m' = \<lparr>db = Some (d\<lparr>codes := ys\<rparr>), initPromise = ?q, indexedDB = ?i\<rparr>"
    and ys: "rows ys = rows (retire uid (codes d))
          @ [(ka, \<lparr>userId = uid, code = adminCode, type = js ''admin'', isActive = True\<rparr>),
             (kv, \<lparr>userId = uid, code = viewerCode, type = js ''viewer'', isActive = True\<rparr>)]"
    by blast
  have types: "js ''viewer'' \<noteq> js ''admin''"
    by (simp add: js_def)
  have admin: "map (\<lambda>(k, c). code c) (active_codes uid (js ''admin'') (d\<lparr>codes := ys\<rparr>)) = [adminCode]"
    using types by (simp add: active_codes_def ys no_active_retired)
  have viewer: "map (\<lambda>(k, c). code c) (active_codes uid (js ''viewer'') (d\<lparr>codes := ys\<rparr>)) = [viewerCode]"
    using types by (simp add: active_codes_def ys no_active_retired)
  have old: "\<exists>c'. tbl_get ys k = Some c' \<and> code c' = code c \<and> \<not> isActive c'"
    if "(k, c) \<in> set (rows (codes d))" and "userId c = uid" for k c
  proof -
    from retired_row [OF that] have "(k, c\<lparr>isActive := False\<rparr>) \<in> set (rows (retire uid (codes d)))"
      by (simp add: in_rows)
    then have "(k, c\<lparr>isActive := False\<rparr>) \<in> set (rows ys)"
      by (simp add: ys)
    then show ?thesis
      by (auto simp: in_rows tbl_get_def)
  qed
  show ?thesis
    using m' admin viewer old by (intro exI [of _ "d\<lparr>codes := ys\<rparr>"]) auto
qed

theorem generateCodesForUser_active_pair_witness:
  "generateCodesForUser (\<lambda>m. m) (\<lambda>m. m) steady steady 1 \<lparr>db = Some shop, initPromise = False, indexedDB = None\<rparr>
     = (Inr (js ''ADM-3V28I723'', js ''VWR-3V28I723''),
        \<lparr>db = Some (shop\<lparr>codes := [None,
             Some \<lparr>userId = 1, code = js ''ADM-AAAA1111'', type = js ''admin'', isActive = False\<rparr>,
             Some \<lparr>userId = 1, code = js ''VWR-AAAA1111'', type = js ''viewer'', isActive = False\<rparr>,
             Some \<lparr>userId = 1, code = js ''ADM-3V28I723'', type = js ''admin'', isActive = True\<rparr>,
             Some \<lparr>userId = 1, code = js ''VWR-3V28I723'', type = js ''viewer'', isActive = True\<rparr>]\<rparr>),
          initPromise = False, indexedDB = None\<rparr>)
   \<and> database_of \<lparr>db = Some shop, initPromise = False, indexedDB = None\<rparr> = Some shop
   \<and> (\<exists>d'. db \<lparr>db = Some (shop\<lparr>codes := [None,
             Some \<lparr>userId = 1, code = js ''ADM-AAAA1111'', type = js ''admin'', isActive = False\<rparr>,
             Some \<lparr>userId = 1, code = js ''VWR-AAAA1111'', type = js ''viewer'', isActive = False\<rparr>,
             Some \<lparr>userId = 1, code = js ''ADM-3V28I723'', type = js ''admin'', isActive = True\<rparr>,
             Some \<lparr>userId = 1, code = js ''VWR-3V28I723'', type = js ''viewer'', isActive = True\<rparr>]\<rparr>),
          initPromise = False, indexedDB = None\<rparr> = Some d'
      \<and> map (\<lambda>(k, c). code c) (active_codes 1 (js ''admin'') d') = [js ''ADM-3V28I723'']
      \<and> map (\<lambda>(k, c). code c) (active_codes 1 (js ''viewer'') d') = [js ''VWR-3V28I723'']
      \<and> (\<forall>(k, c) \<in> set (rows (codes shop)). userId c = 1 \<and> isActive c \<longrightarrow>
            (\<exists>c'. tbl_get (codes d') k = Some c' \<and> code c' = code c \<and> \<not> isActive c')))"
proof -
  have before: "database_of \<lparr>db = Some shop, initPromise = False, indexedDB = None\<rparr> = Some shop"
    by (simp add: database_of_def)
  show ?thesis
    by (rule conjI [OF run_shop conjI [OF before
          generateCodesForUser_active_pair [OF run_shop before]]])
qed

section \<open>The format of generated codes\<close>

text \<open>
  Claim C2. The claim is that every generated code matches \<open>^(ADM|VWR)-[A-Z0-9]{8}$\<close>.
  For the random draw 0.5, which \<open>toString(36)\<close> prints as \<open>0.i\<close>,
  \<open>substring(2, 6)\<close> has one character to take: the code is \<open>ADM-3V28I\<close>, five
  characters after the dash, and does not match.
\<close>

theorem generateCode_short_random:
  "generateCode (Some (js ''admin'')) 1700000000000 [18] = js ''ADM-3V28I''
   \<and> \<not> code_format (generateCode (Some (js ''admin'')) 1700000000000 [18])"
  by (simp add: string_defs digits36.simps code_format_def)

section \<open>Deleting a user\<close>

text \<open>
  Claim C3. The claim is that deleting a user deletes all of the user's codes, active and
  inactive. \<open>deleteUserCodes\<close> reads the codes through \<open>getUserCodes\<close>, which keeps
  the active ones only: user 1 of the example shop is deleted with the subscription and
  the active admin code, and the inactive viewer code stays in the store.
\<close>

theorem deleteUser_keeps_inactive_code:
  "deleteUser 1 \<lparr>db = Some shop, initPromise = False, indexedDB = None\<rparr>
   = (Inr True,
      \<lparr>db = Some \<lparr>users = [None, None],
           codes = [None, None,
             Some \<lparr>userId = 1, code = js ''VWR-AAAA1111'', type = js ''viewer'', isActive = False\<rparr>],
           subscriptions = [None, None],
           failing = False\<rparr>,
        initPromise = False, indexedDB = None\<rparr>)"
  by (simp add: store_defs code_defs shop_def)

section \<open>The tier of a verified code\<close>

text \<open>
  Claim C4. Whenever \<open>verifyCode\<close> resolves with a success object for a user whose
  product is a string \<open>p\<close>, the tier is \<open>Pro-6\<close> if \<open>p\<close> contains \<open>6\<close>, else
  \<open>Pro-12\<close> if \<open>p\<close> contains \<open>Yearly\<close> or the Arabic word, else \<open>Basic-3\<close>; the
  three labels of the claim get \<open>Pro-6\<close>, \<open>Pro-12\<close> and \<open>Basic-3\<close>.
\<close>

theorem verifyCode_tier:
  assumes "verifyCode others1 others2 codeString now m
      = (Inr (Success r u t ca cv uid nm em (Some p)), m')"
  shows "t = spec_tier p
     \<and> deriveTier (Some (js ''Plan-6-Premium'')) = Inr (js ''Pro-6'')
     \<and> deriveTier (Some (js ''Yearly Plan'')) = Inr (js ''Pro-12'')
     \<and> deriveTier (Some (js ''Plan-3'')) = Inr (js ''Basic-3'')"
proof -
  have t: "t = spec_tier p"
    using assms by (rule verifyCode_Success_tier)
  have "spec_tier (js ''Plan-6-Premium'') = js ''Pro-6''"
    "spec_tier (js ''Yearly Plan'') = js ''Pro-12''"
    "spec_tier (js ''Plan-3'') = js ''Basic-3''"
    by (simp_all add: spec_tier_def String_includes_def js_def arabic_yearly_def sublist_code)
  with t show ?thesis by (simp add: deriveTier_string)
qed

theorem verifyCode_tier_witness:
  "verifyCode (\<lambda>m. m) (\<lambda>m. m) (js ''ADM-AAAA1111'') 1700000000000 \<lparr>db = Some shop, initPromise = False, indexedDB = None\<rparr>
   = (Inr (Success (js ''admin'') 1715552000000 (js ''Pro-6'') (js ''ADM-AAAA1111'') []
             1 (js ''Ann'') (js ''ann@example.org'') (Some (js ''Plan-6-Premium''))),
      \<lparr>db = Some shop, initPromise = False, indexedDB = None\<rparr>)
   \<and> js ''Pro-6'' = spec_tier (js ''Plan-6-Premium'')"
  using verify_shop verifyCode_tier [OF verify_shop] by simp

section \<open>Expiry\<close>

text \<open>
  Claim C5. The claim is that a code whose owner's \<open>expiryDate\<close> lies before the current
  instant is answered with \<open>EXPIRED\<close>. The test is \<open>expiryDate && expiryDate < now\<close>
  on the time value, and the time value of \<open>1970-01-01T00:00:00.000Z\<close> is 0, which
  counts as false: at the clock reading 1700000000000 the code of such a user verifies
  with success.
\<close>

theorem verifyCode_epoch_expiry:
  "tbl_get (users lapsed) 1 = Some (ann\<lparr>expiryDate := Some (Num 0)\<rparr>)
   \<and> verifyCode (\<lambda>m. m) (\<lambda>m. m) (js ''ADM-AAAA1111'') 1700000000000 \<lparr>db = Some lapsed, initPromise = False, indexedDB = None\<rparr>
   = (Inr (Success (js ''admin'') 1715552000000 (js ''Pro-6'') (js ''ADM-AAAA1111'') []
             1 (js ''Ann'') (js ''ann@example.org'') (Some (js ''Plan-6-Premium''))),
      \<lparr>db = Some lapsed, initPromise = False, indexedDB = None\<rparr>)"
  by (simp add: verifyCode_open verdict_def lookup_code_def find_code_def deriveTier_string
      spec_tier_def lapsed_def shop_def ann_def rows_def tbl_get_def String_includes_def js_def
      arabic_yearly_def sublist_code)

text \<open>
  Claim C6. The claim is that \<open>until\<close> is the owner's \<open>expiryDate\<close> when the field is
  present. For the same user, \<open>expiryDate || (now + 180 days)\<close> takes the default:
  \<open>until\<close> is 180 days after the clock reading, not the epoch.
\<close>

theorem verifyCode_epoch_until:
  "expiryDate (ann\<lparr>expiryDate := Some (Num 0)\<rparr>) = Some (Num 0)
   \<and> tbl_get (users lapsed) 1 = Some (ann\<lparr>expiryDate := Some (Num 0)\<rparr>)
   \<and> map_sum id until
        (fst (verifyCode (\<lambda>m. m) (\<lambda>m. m) (js ''ADM-AAAA1111'') 1700000000000 \<lparr>db = Some lapsed, initPromise = False, indexedDB = None\<rparr>))
      = Inr (1700000000000 + 180 * 24 * 60 * 60 * 1000)"
  by (simp add: verifyCode_open verdict_def lookup_code_def find_code_def deriveTier_string
      spec_tier_def lapsed_def shop_def ann_def rows_def tbl_get_def String_includes_def js_def
      arabic_yearly_def sublist_code)

section \<open>The uniqueness loop\<close>

text \<open>
  Claim C7. On an opened manager whose database answers and keeps its codes unique,
  regeneration for a role probes the candidates of the rounds \<open>0\<close>, \<open>1\<close>, ... by
  exact code string against the store as the deactivation left it (\<open>d1\<close>), stops
  at the first round \<open>na\<close> (\<open>nv\<close>) whose candidate no stored code carries, and at the
  latest at round \<open>maxAttempts - 1 = 9\<close>: every earlier candidate is taken, and the
  candidate of the last round is used whether it is free or not. Regeneration does not
  reject at the generation step: it goes on to \<open>addCode\<close> with these two candidates.
  When all ten admin candidates are taken, the tenth is handed to \<open>addCode\<close>, and it
  is the unique index that refuses it.
\<close>

theorem generateCodesForUser_probes:
  assumes opened: "db m = Some d" and nf: "\<not> failing d" and uq: "unique_codes d"
    and d1: "d1 = d\<lparr>codes := retire uid (codes d)\<rparr>"
    and na: "na = attempt (js ''admin'') entropyAdmin d1"
    and nv: "nv = attempt (js ''viewer'') entropyViewer d1"
  shows "maxAttempts = 10
     \<and> na < maxAttempts
     \<and> (\<forall>j < na. lookup_code (candidate (js ''admin'') entropyAdmin j) d1 \<noteq> None)
     \<and> (lookup_code (candidate (js ''admin'') entropyAdmin na) d1 = None \<or> na = maxAttempts - 1)
     \<and> nv < maxAttempts
     \<and> (\<forall>j < nv. lookup_code (candidate (js ''viewer'') entropyViewer j) d1 \<noteq> None)
     \<and> (lookup_code (candidate (js ''viewer'') entropyViewer nv) d1 = None \<or> nv = maxAttempts - 1)
     \<and> generateCodesForUser others1 others2 entropyAdmin entropyViewer uid m
        = await (addCode uid (candidate (js ''admin'') entropyAdmin na) (js ''admin'') (Some True))
            (\<lambda>adminCodeId.
          await (addCode uid (candidate (js ''viewer'') entropyViewer nv) (js ''viewer'') (Some True))
            (\<lambda>viewerCodeId.
          await (sleep others1) (\<lambda>_.
          await (readBack others2 (candidate (js ''admin'') entropyAdmin na)
                   (candidate (js ''viewer'') entropyViewer nv) adminCodeId viewerCodeId) (\<lambda>_.
          resolve (candidate (js ''admin'') entropyAdmin na,
                   candidate (js ''viewer'') entropyViewer nv)))))
            (m\<lparr>db := Some d1\<rparr>)
     \<and> ((\<forall>j < maxAttempts. lookup_code (candidate (js ''admin'') entropyAdmin j) d1 \<noteq> None) \<longrightarrow>
          na = maxAttempts - 1
          \<and> generateCodesForUser others1 others2 entropyAdmin entropyViewer uid m
              = (Inl ConstraintError, m\<lparr>db := Some d1\<rparr>))"
proof -
  obtain q i where m: "m = \<lparr>db = Some d, initPromise = q, indexedDB = i\<rparr>"
    using opened by (cases m) simp
  let ?m1 = "\<lparr>db = Some d1, initPromise = q, indexedDB = i\<rparr>"
  have m1: "m\<lparr>db := Some d1\<rparr> = ?m1" by (simp add: m)
  have nf1: "\<not> failing d1" using nf d1 by simp
  note pa = attempt_props [of "js ''admin''" entropyAdmin d1, folded na]
  note pv = attempt_props [of "js ''viewer''" entropyViewer d1, folded nv]
  have steps: "generateCodesForUser others1 others2 entropyAdmin entropyViewer uid m
        = await (addCode uid (candidate (js ''admin'') entropyAdmin na) (js ''admin'') (Some True))
            (\<lambda>adminCodeId.
          await (addCode uid (candidate (js ''viewer'') entropyViewer nv) (js ''viewer'') (Some True))
            (\<lambda>viewerCodeId.
          await (sleep others1) (\<lambda>_.
          await (readBack others2 (candidate (js ''admin'') entropyAdmin na)
                   (candidate (js ''viewer'') entropyViewer nv) adminCodeId viewerCodeId) (\<lambda>_.
          resolve (candidate (js ''admin'') entropyAdmin na,
                   candidate (js ''viewer'') entropyViewer nv)))))
            (m\<lparr>db := Some d1\<rparr>)"
    unfolding m1 unfolding m na nv d1
    by (rule generateCodesForUser_steps [OF nf uq])
  have exhausted: "na = maxAttempts - 1
          \<and> generateCodesForUser others1 others2 entropyAdmin entropyViewer uid m
              = (Inl ConstraintError, m\<lparr>db := Some d1\<rparr>)"
    if all: "\<forall>j < maxAttempts. lookup_code (candidate (js ''admin'') entropyAdmin j) d1 \<noteq> None"
  proof -
    from all pa have taken: "lookup_code (candidate (js ''admin'') entropyAdmin na) d1 \<noteq> None"
      by blast
    with pa have last: "na = maxAttempts - 1" by blast
    from taken have "addCode uid (candidate (js ''admin'') entropyAdmin na) (js ''admin'') (Some True) ?m1
        = (Inl ConstraintError, ?m1)"
      by (simp add: addCode_open [OF nf1] lookup_code_None_iff)
    then show ?thesis
      using last unfolding steps m1 by (simp add: await_def)
  qed
  have max: "maxAttempts = 10" by (simp add: maxAttempts_def)
  from pa have pa1: "na < maxAttempts"
    and pa2: "\<forall>j < na. lookup_code (candidate (js ''admin'') entropyAdmin j) d1 \<noteq> None"
    and pa3: "lookup_code (candidate (js ''admin'') entropyAdmin na) d1 = None \<or> na = maxAttempts - 1"
    by blast+
  from pv have pv1: "nv < maxAttempts"
    and pv2: "\<forall>j < nv. lookup_code (candidate (js ''viewer'') entropyViewer j) d1 \<noteq> None"
    and pv3: "lookup_code (candidate (js ''viewer'') entropyViewer nv) d1 = None \<or> nv = maxAttempts - 1"
    by blast+
  have last: "(\<forall>j < maxAttempts. lookup_code (candidate (js ''admin'') entropyAdmin j) d1 \<noteq> None) \<longrightarrow>
          na = maxAttempts - 1
          \<and> generateCodesForUser others1 others2 entropyAdmin entropyViewer uid m
              = (Inl ConstraintError, m\<lparr>db := Some d1\<rparr>)"
    using exhausted by blast
  show ?thesis
    by (rule conjI [OF max conjI [OF pa1 conjI [OF pa2 conjI [OF pa3 conjI [OF pv1
          conjI [OF pv2 conjI [OF pv3 conjI [OF steps last]]]]]]]])
qed

theorem generateCodesForUser_probes_witness:
  "db \<lparr>db = Some restocked, initPromise = False, indexedDB = None\<rparr> = Some restocked
   \<and> \<not> failing restocked \<and> unique_codes restocked
   \<and> attempt (js ''admin'') stuttering (restocked\<lparr>codes := retire 1 (codes restocked)\<rparr>) = 2
   \<and> generateCodesForUser (\<lambda>m. m) (\<lambda>m. m) stuttering stuttering 1
        \<lparr>db = Some restocked, initPromise = False, indexedDB = None\<rparr>
      = (Inr (js ''ADM-3V28I724'', js ''VWR-3V28I724''),
         \<lparr>db = Some (worn\<lparr>codes := codes worn @
              [Some \<lparr>userId = 1, code = js ''ADM-3V28I724'', type = js ''admin'', isActive = True\<rparr>,
               Some \<lparr>userId = 1, code = js ''VWR-3V28I724'', type = js ''viewer'', isActive = True\<rparr>]\<rparr>),
            initPromise = False, indexedDB = None\<rparr>)
   \<and> attempt (js ''admin'') steady (restocked\<lparr>codes := retire 1 (codes restocked)\<rparr>) = 9
   \<and> generateCodesForUser (\<lambda>m. m) (\<lambda>m. m) steady steady 1
        \<lparr>db = Some restocked, initPromise = False, indexedDB = None\<rparr>
      = (Inl ConstraintError, \<lparr>db = Some worn, initPromise = False, indexedDB = None\<rparr>)"
proof -
  let ?m = "\<lparr>db = Some restocked, initPromise = False, indexedDB = None\<rparr>"
  let ?d1 = "restocked\<lparr>codes := retire 1 (codes restocked)\<rparr>"
  have opened: "db ?m = Some restocked" by simp
  have nf: "\<not> failing restocked" by (simp add: example_defs)
  have uq: "unique_codes restocked" by (simp add: example_defs rows_def js_def)
  have d1: "?d1 = worn"
    by (simp add: restocked_def worn_def) (simp add: retire_def)
  have m1: "?m\<lparr>db := Some ?d1\<rparr> = \<lparr>db = Some worn, initPromise = False, indexedDB = None\<rparr>"
    using d1 by simp
  have early: "candidate (js ''admin'') stuttering j = js ''ADM-3V28I723''"
    "candidate (js ''viewer'') stuttering j = js ''VWR-3V28I723''" if "j < 2" for j
    using that by (simp_all add: candidate_def stuttering_def string_defs digits36.simps)
  have always: "candidate (js ''admin'') steady j = js ''ADM-3V28I723''" for j
    by (simp add: candidate_def steady_def string_defs digits36.simps)
  have a2: "candidate (js ''admin'') stuttering 2 = js ''ADM-3V28I724''"
    and v2: "candidate (js ''viewer'') stuttering 2 = js ''VWR-3V28I724''"
    by (simp_all add: candidate_def stuttering_def string_defs digits36.simps)
  have taken: "lookup_code (js ''ADM-3V28I723'') worn \<noteq> None"
    "lookup_code (js ''VWR-3V28I723'') worn \<noteq> None"
    and free: "lookup_code (js ''ADM-3V28I724'') worn = None"
    "lookup_code (js ''VWR-3V28I724'') worn = None"
    by (simp_all add: example_defs rows_def js_def)
  have na: "attempt (js ''admin'') stuttering ?d1 = 2"
    unfolding d1
    by (rule attempt_unique [symmetric]) (simp_all add: maxAttempts_def early a2 taken free)
  have nv: "attempt (js ''viewer'') stuttering ?d1 = 2"
    unfolding d1
    by (rule attempt_unique [symmetric]) (simp_all add: maxAttempts_def early v2 taken free)
  have na': "attempt (js ''admin'') steady ?d1 = 9"
    unfolding d1
    by (rule attempt_unique [symmetric]) (simp_all add: maxAttempts_def always taken)
  note retry = generateCodesForUser_probes [where ?others1.0 = "\<lambda>m. m" and ?others2.0 = "\<lambda>m. m"
      and entropyAdmin = stuttering and entropyViewer = stuttering and uid = 1,
      OF opened nf uq refl refl refl]
  note spent = generateCodesForUser_probes [where ?others1.0 = "\<lambda>m. m" and ?others2.0 = "\<lambda>m. m"
      and entropyAdmin = steady and entropyViewer = steady and uid = 1,
      OF opened nf uq refl refl refl]
  from retry have "generateCodesForUser (\<lambda>m. m) (\<lambda>m. m) stuttering stuttering 1 ?m
      = await (addCode 1 (js ''ADM-3V28I724'') (js ''admin'') (Some True)) (\<lambda>adminCodeId.
        await (addCode 1 (js ''VWR-3V28I724'') (js ''viewer'') (Some True)) (\<lambda>viewerCodeId.
        await (sleep (\<lambda>m. m)) (\<lambda>_.
        await (readBack (\<lambda>m. m) (js ''ADM-3V28I724'') (js ''VWR-3V28I724'') adminCodeId viewerCodeId)
          (\<lambda>_. resolve (js ''ADM-3V28I724'', js ''VWR-3V28I724'')))))
          \<lparr>db = Some worn, initPromise = False, indexedDB = None\<rparr>"
    unfolding na nv a2 v2 m1 by blast
  then have run: "generateCodesForUser (\<lambda>m. m) (\<lambda>m. m) stuttering stuttering 1 ?m
      = (Inr (js ''ADM-3V28I724'', js ''VWR-3V28I724''),
         \<lparr>db = Some (worn\<lparr>codes := codes worn @
              [Some \<lparr>userId = 1, code = js ''ADM-3V28I724'', type = js ''admin'', isActive = True\<rparr>,
               Some \<lparr>userId = 1, code = js ''VWR-3V28I724'', type = js ''viewer'', isActive = True\<rparr>]\<rparr>),
            initPromise = False, indexedDB = None\<rparr>)"
    by (simp add: readBack_def store_defs code_defs example_defs js_def)
  have "\<forall>j < maxAttempts. lookup_code (candidate (js ''admin'') steady j) ?d1 \<noteq> None"
    unfolding d1 using taken by (simp add: always)
  with spent have out: "generateCodesForUser (\<lambda>m. m) (\<lambda>m. m) steady steady 1 ?m
      = (Inl ConstraintError, \<lparr>db = Some worn, initPromise = False, indexedDB = None\<rparr>)"
    unfolding m1 by blast
  show ?thesis
    using opened nf uq na run na' out by blast
qed

section \<open>The read-back after persisting\<close>

text \<open>
  Claim C8. Regeneration stores the two codes it generated with \<open>addCode\<close>, which
  returns their ids, and sleeps. Then it looks each new code up by its string and, where
  that misses, by the id that \<open>addCode\<close> returned. If both are found it resolves with
  the two codes. Otherwise it sleeps once more, looks both codes up by their strings
  again, and rejects with the verification error exactly when one of them is still
  missing. \<open>d4\<close> is the database after the first sleep, \<open>d5\<close> the one after the
  second; both answer.
\<close>

theorem generateCodesForUser_read_back:
  assumes opened: "db m = Some d" and nf: "\<not> failing d" and uq: "unique_codes d"
    and d1: "d1 = d\<lparr>codes := retire uid (codes d)\<rparr>"
    and a: "adminCode = candidate (js ''admin'') entropyAdmin (attempt (js ''admin'') entropyAdmin d1)"
    and v: "viewerCode = candidate (js ''viewer'') entropyViewer (attempt (js ''viewer'') entropyViewer d1)"
    and add1: "addCode uid adminCode (js ''admin'') (Some True) (m\<lparr>db := Some d1\<rparr>)
        = (Inr adminCodeId, m2)"
    and add2: "addCode uid viewerCode (js ''viewer'') (Some True) m2 = (Inr viewerCodeId, m3)"
    and first: "db (others1 m3) = Some d4" "\<not> failing d4"
    and second: "db (others2 (others1 m3)) = Some d5" "\<not> failing d5"
  shows "generateCodesForUser others1 others2 entropyAdmin entropyViewer uid m =
     (if (lookup_code adminCode d4 \<noteq> None \<or> tbl_get (codes d4) adminCodeId \<noteq> None)
         \<and> (lookup_code viewerCode d4 \<noteq> None \<or> tbl_get (codes d4) viewerCodeId \<noteq> None)
      then (Inr (adminCode, viewerCode), others1 m3)
      else if lookup_code adminCode d5 \<noteq> None \<and> lookup_code viewerCode d5 \<noteq> None
      then (Inr (adminCode, viewerCode), others2 (others1 m3))
      else (Inl VerificationFailed, others2 (others1 m3)))"
proof -
  obtain q i where m: "m = \<lparr>db = Some d, initPromise = q, indexedDB = i\<rparr>"
    using opened by (cases m) simp
  have m1: "m\<lparr>db := Some d1\<rparr> = \<lparr>db = Some d1, initPromise = q, indexedDB = i\<rparr>"
    by (simp add: m)
  have steps: "generateCodesForUser others1 others2 entropyAdmin entropyViewer uid m
        = await (addCode uid adminCode (js ''admin'') (Some True)) (\<lambda>adminCodeId.
          await (addCode uid viewerCode (js ''viewer'') (Some True)) (\<lambda>viewerCodeId.
          await (sleep others1) (\<lambda>_.
          await (readBack others2 adminCode viewerCode adminCodeId viewerCodeId) (\<lambda>_.
          resolve (adminCode, viewerCode)))))
            (m\<lparr>db := Some d1\<rparr>)"
    unfolding m1 unfolding m a v d1
    by (rule generateCodesForUser_steps [OF nf uq])
  have e1: "await (addCode uid adminCode (js ''admin'') (Some True)) f (m\<lparr>db := Some d1\<rparr>)
      = f adminCodeId m2" for f :: "nat \<Rightarrow> (jsstring \<times> jsstring) promise"
    by (rule await_resolved) (rule add1)
  have e2: "await (addCode uid viewerCode (js ''viewer'') (Some True)) f m2 = f viewerCodeId m3"
    for f :: "nat \<Rightarrow> (jsstring \<times> jsstring) promise"
    by (rule await_resolved) (rule add2)
  have e3: "await (sleep others1) f m3 = f () (others1 m3)"
    for f :: "unit \<Rightarrow> (jsstring \<times> jsstring) promise"
    by (simp add: await_def sleep_def)
  have rest: "generateCodesForUser others1 others2 entropyAdmin entropyViewer uid m
      = await (readBack others2 adminCode viewerCode adminCodeId viewerCodeId) (\<lambda>_.
          resolve (adminCode, viewerCode)) (others1 m3)"
    unfolding steps by (simp only: e1 e2 e3)
  show ?thesis
    unfolding rest
    by (simp add: await_def resolve_def
        readBack_outcome [where others = others2, OF first second])
qed

theorem generateCodesForUser_read_back_witness:
  "db \<lparr>db = Some shop, initPromise = False, indexedDB = None\<rparr> = Some shop
   \<and> \<not> failing shop \<and> unique_codes shop
   \<and> addCode 1 (js ''ADM-3V28I723'') (js ''admin'') (Some True)
        \<lparr>db = Some idle, initPromise = False, indexedDB = None\<rparr>
      = (Inr 3, \<lparr>db = Some (idle\<lparr>codes := codes idle @
            [Some \<lparr>userId = 1, code = js ''ADM-3V28I723'', type = js ''admin'', isActive = True\<rparr>]\<rparr>),
          initPromise = False, indexedDB = None\<rparr>)
   \<and> addCode 1 (js ''VWR-3V28I723'') (js ''viewer'') (Some True)
        \<lparr>db = Some (idle\<lparr>codes := codes idle @
            [Some \<lparr>userId = 1, code = js ''ADM-3V28I723'', type = js ''admin'', isActive = True\<rparr>]\<rparr>),
          initPromise = False, indexedDB = None\<rparr>
      = (Inr 4, \<lparr>db = Some restocked, initPromise = False, indexedDB = None\<rparr>)
   \<and> generateCodesForUser removes (\<lambda>m. m) steady steady 1
        \<lparr>db = Some shop, initPromise = False, indexedDB = None\<rparr>
      = (Inl VerificationFailed, removes \<lparr>db = Some restocked, initPromise = False, indexedDB = None\<rparr>)
   \<and> generateCodesForUser relabels (\<lambda>m. m) steady steady 1
        \<lparr>db = Some shop, initPromise = False, indexedDB = None\<rparr>
      = (Inr (js ''ADM-3V28I723'', js ''VWR-3V28I723''),
         relabels \<lparr>db = Some restocked, initPromise = False, indexedDB = None\<rparr>)
   \<and> generateCodesForUser removes restores steady steady 1
        \<lparr>db = Some shop, initPromise = False, indexedDB = None\<rparr>
      = (Inr (js ''ADM-3V28I723'', js ''VWR-3V28I723''),
         restores (removes \<lparr>db = Some restocked, initPromise = False, indexedDB = None\<rparr>))"
proof -
  let ?readd = "restocked\<lparr>codes := (codes restocked)[3 := None] @
      [Some \<lparr>userId = 1, code = js ''ADM-3V28I723'', type = js ''admin'', isActive = True\<rparr>]\<rparr>"
  let ?m = "\<lparr>db = Some shop, initPromise = False, indexedDB = None\<rparr>"
  let ?d1 = "shop\<lparr>codes := retire 1 (codes shop)\<rparr>"
  let ?mid = "idle\<lparr>codes := codes idle @
            [Some \<lparr>userId = 1, code = js ''ADM-3V28I723'', type = js ''admin'', isActive = True\<rparr>]\<rparr>"
  let ?m2 = "\<lparr>db = Some ?mid, initPromise = False, indexedDB = None\<rparr>"
  let ?m3 = "\<lparr>db = Some restocked, initPromise = False, indexedDB = None\<rparr>"
  let ?gone = "restocked\<lparr>codes := (codes restocked)[3 := None]\<rparr>"
  let ?moved = "restocked\<lparr>codes := (codes restocked)
      [3 := Some \<lparr>userId = 1, code = js ''ADM-RELABELLED'', type = js ''admin'', isActive = True\<rparr>]\<rparr>"
  have opened: "db ?m = Some shop" by simp
  have nf: "\<not> failing shop" by (simp add: shop_def)
  have uq: "unique_codes shop" by (simp add: unique_codes_def shop_def rows_def js_def)
  have d1: "?d1 = idle"
    by (simp add: shop_def idle_def) (simp add: retire_def)
  have m1: "?m\<lparr>db := Some ?d1\<rparr> = \<lparr>db = Some idle, initPromise = False, indexedDB = None\<rparr>"
    using d1 by simp
  have always: "candidate (js ''admin'') steady j = js ''ADM-3V28I723''"
    "candidate (js ''viewer'') steady j = js ''VWR-3V28I723''" for j
    by (simp_all add: candidate_def steady_def string_defs digits36.simps)
  have free: "lookup_code (js ''ADM-3V28I723'') idle = None"
    "lookup_code (js ''VWR-3V28I723'') idle = None"
    by (simp_all add: lookup_code_def idle_def shop_def rows_def js_def)
  have a: "js ''ADM-3V28I723''
      = candidate (js ''admin'') steady (attempt (js ''admin'') steady ?d1)"
    by (simp add: always)
  have v: "js ''VWR-3V28I723''
      = candidate (js ''viewer'') steady (attempt (js ''viewer'') steady ?d1)"
    by (simp add: always)
  have add1': "addCode 1 (js ''ADM-3V28I723'') (js ''admin'') (Some True)
        \<lparr>db = Some idle, initPromise = False, indexedDB = None\<rparr> = (Inr 3, ?m2)"
    by (simp add: store_defs code_defs idle_def shop_def js_def)
  have add2: "addCode 1 (js ''VWR-3V28I723'') (js ''viewer'') (Some True) ?m2 = (Inr 4, ?m3)"
    by (simp add: store_defs code_defs idle_def restocked_def shop_def js_def)
  have add1: "addCode 1 (js ''ADM-3V28I723'') (js ''admin'') (Some True) (?m\<lparr>db := Some ?d1\<rparr>)
      = (Inr 3, ?m2)"
    unfolding m1 by (rule add1')
  have gone: "removes ?m3 = \<lparr>db = Some ?gone, initPromise = False, indexedDB = None\<rparr>"
    by (simp add: removes_def store_defs code_defs restocked_def shop_def)
  have moved: "relabels ?m3 = \<lparr>db = Some ?moved, initPromise = False, indexedDB = None\<rparr>"
    by (simp add: relabels_def relabel_def store_defs code_defs restocked_def shop_def js_def)
  have gone_db: "db (removes ?m3) = Some ?gone" "\<not> failing ?gone"
    unfolding gone by (simp_all add: restocked_def shop_def)
  have moved_db: "db (relabels ?m3) = Some ?moved" "\<not> failing ?moved"
    unfolding moved by (simp_all add: restocked_def shop_def)
  have gone_reads: "lookup_code (js ''ADM-3V28I723'') ?gone = None"
    "tbl_get (codes ?gone) 3 = None"
    by (simp_all add: lookup_code_def tbl_get_def restocked_def shop_def rows_def js_def)
  have moved_reads: "lookup_code (js ''ADM-3V28I723'') ?moved = None"
    "tbl_get (codes ?moved) 3 \<noteq> None" "lookup_code (js ''VWR-3V28I723'') ?moved \<noteq> None"
    by (simp_all add: lookup_code_def tbl_get_def restocked_def shop_def rows_def js_def)
  from generateCodesForUser_read_back [where ?others1.0 = removes and ?others2.0 = "\<lambda>m. m"
      and entropyAdmin = steady and entropyViewer = steady,
      OF opened nf uq refl a v add1 add2 gone_db gone_db]
  have lost: "generateCodesForUser removes (\<lambda>m. m) steady steady 1 ?m
      = (Inl VerificationFailed, removes ?m3)"
    by (simp only: gone_reads) simp
  from generateCodesForUser_read_back [where ?others1.0 = relabels and ?others2.0 = "\<lambda>m. m"
      and entropyAdmin = steady and entropyViewer = steady,
      OF opened nf uq refl a v add1 add2 moved_db moved_db]
  have kept: "generateCodesForUser relabels (\<lambda>m. m) steady steady 1 ?m
      = (Inr (js ''ADM-3V28I723'', js ''VWR-3V28I723''), relabels ?m3)"
    using moved_reads(2,3) by (simp only: moved_reads(1)) simp
  have readd: "restores (removes ?m3) = \<lparr>db = Some ?readd, initPromise = False, indexedDB = None\<rparr>"
    unfolding gone
    by (simp add: restores_def store_defs code_defs restocked_def shop_def js_def)
  have readd_db: "db (restores (removes ?m3)) = Some ?readd" "\<not> failing ?readd"
    unfolding readd by (simp_all add: restocked_def shop_def)
  have readd_reads: "lookup_code (js ''ADM-3V28I723'') ?readd \<noteq> None"
    "lookup_code (js ''VWR-3V28I723'') ?readd \<noteq> None"
    by (simp_all add: lookup_code_def restocked_def shop_def rows_def js_def)
  from generateCodesForUser_read_back [where ?others1.0 = removes and ?others2.0 = restores
      and entropyAdmin = steady and entropyViewer = steady,
      OF opened nf uq refl a v add1 add2 gone_db readd_db]
  have retried: "generateCodesForUser removes restores steady steady 1 ?m
      = (Inr (js ''ADM-3V28I723'', js ''VWR-3V28I723''), restores (removes ?m3))"
    using readd_reads by (simp only: gone_reads) simp
  show ?thesis
    by (rule conjI [OF opened conjI [OF nf conjI [OF uq conjI [OF add1' conjI [OF add2
          conjI [OF lost conjI [OF kept retried]]]]]]])
qed

section \<open>Failures during verification\<close>




text \<open>
  Claim C10. For an active code whose owner exists, is not expired and has no product
  (\<open>null\<close> or \<open>undefined\<close>), \<open>verifyCode\<close> resolves with
  \<open>{ok: false, message: 'ERROR'}\<close>, not with a success object of tier \<open>Basic-3\<close>:
  the right operand of \<open>||\<close> calls \<open>includes\<close> on the missing product, and the
  handler of the \<open>try\<close> answers the \<open>TypeError\<close>. This holds whatever happens to the
  manager before the third look-up; for a caller alone the manager is left as it was.
\<close>

theorem verifyCode_missing_product:
  assumes code: "fst (getCode codeString m) = Inr (Some (codeId, c))"
    and active: "isActive c"
    and owner: "fst (getUser (userId c) m) = Inr (Some u)"
    and unexpired: "\<forall>t. expiryDate u = Some (Num t) \<longrightarrow> now \<le> t"
    and missing: "product u = None"
  shows "verifyCode (\<lambda>m. m) (\<lambda>m. m) codeString now m = (Inr (Failure (js ''ERROR'')), m)
     \<and> fst (verifyCode (\<lambda>m. m) others2 codeString now m) = Inr (Failure (js ''ERROR''))"
proof -
  obtain x q i where m: "m = \<lparr>db = x, initPromise = q, indexedDB = i\<rparr>" by (cases m)
  have "x \<noteq> None"
    using getCode_resolved [OF code] by (simp add: m)
  then obtain d where x: "x = Some d" by blast
  have nf: "\<not> failing d"
    using code by (auto simp: m x getCode_failing)
  from code have found: "lookup_code codeString d = Some (codeId, c)"
    by (simp add: m x getCode_open [OF nf])
  from owner have user: "tbl_get (users d) (userId c) = Some u"
    by (simp add: m x getUser_def get_open [OF nf])
  have valid: "\<not> (truthy_num (expiryDate u) \<and> num_less (expiryDate u) now)"
  proof (cases "expiryDate u")
    case None
    then show ?thesis by simp
  next
    case (Some n)
    with unexpired show ?thesis by (cases n) auto
  qed
  have "verdict codeString now d = Failure (js ''ERROR'')"
    using found active user valid missing by (auto simp: verdict_def deriveTier_missing)
  then have quiet: "verifyCode (\<lambda>m. m) (\<lambda>m. m) codeString now m
      = (Inr (Failure (js ''ERROR'')), m)"
    by (simp add: m x verifyCode_open [OF nf])
  have "deriveTier (product u) = Inl TypeError"
    by (simp add: missing deriveTier_missing)
  with code active owner valid
  have "fst (verifyCode (\<lambda>m. m) others2 codeString now m) = Inr (Failure (js ''ERROR''))"
    by (rule verifyCode_deriveTier_fails [where ?others1.0 = "\<lambda>m. m"])
  with quiet show ?thesis by simp
qed

theorem verifyCode_missing_product_witness:
  "fst (getCode (js ''ADM-AAAA1111'') \<lparr>db = Some unlabelled, initPromise = False, indexedDB = None\<rparr>)
     = Inr (Some (1, \<lparr>userId = 1, code = js ''ADM-AAAA1111'', type = js ''admin'', isActive = True\<rparr>))
   \<and> fst (getUser 1 \<lparr>db = Some unlabelled, initPromise = False, indexedDB = None\<rparr>) = Inr (Some (ann\<lparr>product := None\<rparr>))
   \<and> verifyCode (\<lambda>m. m) (\<lambda>m. m) (js ''ADM-AAAA1111'') 1700000000000 \<lparr>db = Some unlabelled, initPromise = False, indexedDB = None\<rparr>
     = (Inr (Failure (js ''ERROR'')), \<lparr>db = Some unlabelled, initPromise = False, indexedDB = None\<rparr>)
   \<and> fst (verifyCode (\<lambda>m. m) connection_lost (js ''ADM-AAAA1111'') 1700000000000
        \<lparr>db = Some unlabelled, initPromise = False, indexedDB = None\<rparr>)
     = Inr (Failure (js ''ERROR''))"
proof -
  let ?c = "\<lparr>userId = 1, code = js ''ADM-AAAA1111'', type = js ''admin'', isActive = True\<rparr>"
  let ?m = "\<lparr>db = Some unlabelled, initPromise = False, indexedDB = None\<rparr>"
  have code: "fst (getCode (js ''ADM-AAAA1111'') ?m) = Inr (Some (1, ?c))"
    by (simp add: store_defs code_defs unlabelled_def shop_def js_def)
  have owner: "fst (getUser (userId ?c) ?m) = Inr (Some (ann\<lparr>product := None\<rparr>))"
    by (simp add: store_defs code_defs unlabelled_def shop_def)
  have active: "isActive ?c" by simp
  have unexpired: "\<forall>t. expiryDate (ann\<lparr>product := None\<rparr>) = Some (Num t) \<longrightarrow> 1700000000000 \<le> t"
    by (simp add: ann_def)
  have missing: "product (ann\<lparr>product := None\<rparr>) = None" by simp
  from verifyCode_missing_product [OF code active owner unexpired missing,
      where ?others2.0 = connection_lost] code owner
  show ?thesis by simp
qed

end
